theory Spec2Isabelle
  imports Main
begin

section \<open>Data model\<close>

text \<open>
  The engine is the class \<open>Debugger\<close> of \<open>nuclide-debugger-cli/lib/Debugger.js\<close>.
  Its mutable fields become a record that every operation takes and returns; the
  console, the adapter requests and the host calls it makes are appended, in order, to
  the field \<open>trace\<close>. An \<open>await\<close> on an adapter request is modelled as a call of a
  response function of the session, so an operation's result is the state reached once
  the responses it waits for have arrived.
\<close>

datatype SessionState = INITIALIZING | CONFIGURING | RUNNING | STOPPED | TERMINATED

datatype BreakpointState = ENABLED | ONCE | DISABLED

datatype Error =
    NoActiveSession
  | NotRunning
  | OnceUnsupported
  | FunctionBreakpointsUnsupported
  | NotFound
  | NoAdapter
  | TypeError
  | StoppedThreadMissing
  | InvariantViolation
  | AdapterRequestFailed string

text \<open>
  Modelled from the spec: the class \<open>Breakpoint\<close> (\<open>Breakpoint.js\<close> is not among the
  sources). Section 3 gives its attributes: the dense user-facing \<open>index\<close>, the optional
  adapter \<open>id\<close> (here \<open>bp_id\<close>), the kind (a function breakpoint is one whose \<open>func\<close> is
  present), \<open>state\<close>, \<open>verified\<close> and the optional adapter-supplied \<open>message\<close>.
\<close>

record Breakpoint =
  index :: nat
  bp_id :: "int option"
  verified :: bool
  state :: BreakpointState
  path :: "string option"
  line :: "int option"
  func :: "string option"
  message :: "string option"

text \<open>
  Modelled from the spec: \<open>Breakpoint.toggleState\<close>. Section 4.E: it flips enabled and
  disabled, and once collapses to disabled on toggle.
\<close>

fun toggleState :: "BreakpointState \<Rightarrow> BreakpointState" where
  "toggleState ENABLED = DISABLED"
| "toggleState DISABLED = ENABLED"
| "toggleState ONCE = DISABLED"

text \<open>
  Modelled from the spec: the class \<open>BreakpointCollection\<close> (\<open>BreakpointCollection.js\<close>
  is not among the sources). The registry is the list of its breakpoints in creation
  order, which is index order because indices are handed out increasingly; \<open>nextIndex\<close>
  is the next index to hand out and \<open>onceState\<close> is what \<open>supportsOnceState()\<close> returns.
  A \<open>Breakpoint\<close> object the engine holds is identified with the registry entry of its
  index, so mutating the object is updating that entry.
\<close>

record BreakpointCollection =
  allBreakpoints :: "Breakpoint list"
  nextIndex :: nat
  onceState :: bool

text \<open>
  Modelled from the spec: the operations of \<open>BreakpointCollection\<close> and the setter
  \<open>Breakpoint.setState\<close>, after the contract of section 4.D/4.E. Adding hands out a
  fresh index, with initial state enabled, or once if requested and supported, and
  verified false. The lookups fail with \<open>NotFound\<close>. A setter updates the entry of the
  given index. The enabled breakpoints are those whose state is enabled or once; source
  breakpoints are those without a function name; \<open>getAllEnabledBreakpointsByPath\<close>
  groups the enabled source breakpoints over the paths that carry at least one.
\<close>

definition updateByIndex ::
  "nat \<Rightarrow> (Breakpoint \<Rightarrow> Breakpoint) \<Rightarrow> BreakpointCollection \<Rightarrow> BreakpointCollection" where
  "updateByIndex i f c =
     c\<lparr>allBreakpoints := map (\<lambda>b. if index b = i then f b else b) (allBreakpoints c)\<rparr>"

definition addSourceBreakpoint ::
  "string \<Rightarrow> int \<Rightarrow> bool \<Rightarrow> BreakpointCollection \<Rightarrow> nat \<times> BreakpointCollection" where
  "addSourceBreakpoint p l once c =
     (nextIndex c,
      c\<lparr>allBreakpoints := allBreakpoints c @
           [\<lparr>index = nextIndex c, bp_id = None, verified = False,
             state = (if once \<and> onceState c then ONCE else ENABLED),
             path = Some p, line = Some l, func = None, message = None\<rparr>],
        nextIndex := Suc (nextIndex c)\<rparr>)"

definition addFunctionBreakpoint ::
  "string \<Rightarrow> bool \<Rightarrow> BreakpointCollection \<Rightarrow> nat \<times> BreakpointCollection" where
  "addFunctionBreakpoint f once c =
     (nextIndex c,
      c\<lparr>allBreakpoints := allBreakpoints c @
           [\<lparr>index = nextIndex c, bp_id = None, verified = False,
             state = (if once \<and> onceState c then ONCE else ENABLED),
             path = None, line = None, func = Some f, message = None\<rparr>],
        nextIndex := Suc (nextIndex c)\<rparr>)"

definition getBreakpointByIndex :: "nat \<Rightarrow> BreakpointCollection \<Rightarrow> Error + Breakpoint" where
  "getBreakpointByIndex i c =
     (case find (\<lambda>b. index b = i) (allBreakpoints c) of
        None \<Rightarrow> Inl NotFound
      | Some b \<Rightarrow> Inr b)"

definition getBreakpointById :: "int \<Rightarrow> BreakpointCollection \<Rightarrow> Error + Breakpoint" where
  "getBreakpointById i c =
     (case find (\<lambda>b. bp_id b = Some i) (allBreakpoints c) of
        None \<Rightarrow> Inl NotFound
      | Some b \<Rightarrow> Inr b)"

definition setBreakpointId :: "nat \<Rightarrow> int \<Rightarrow> BreakpointCollection \<Rightarrow> BreakpointCollection" where
  "setBreakpointId i v c = updateByIndex i (\<lambda>b. b\<lparr>bp_id := Some v\<rparr>) c"

definition setBreakpointVerified ::
  "nat \<Rightarrow> bool \<Rightarrow> BreakpointCollection \<Rightarrow> BreakpointCollection" where
  "setBreakpointVerified i v c = updateByIndex i (\<lambda>b. b\<lparr>verified := v\<rparr>) c"

definition setPathAndFile ::
  "nat \<Rightarrow> string \<Rightarrow> int \<Rightarrow> BreakpointCollection \<Rightarrow> BreakpointCollection" where
  "setPathAndFile i p l c = updateByIndex i (\<lambda>b. b\<lparr>path := Some p, line := Some l\<rparr>) c"

definition setState ::
  "nat \<Rightarrow> BreakpointState \<Rightarrow> BreakpointCollection \<Rightarrow> BreakpointCollection" where
  "setState i st c = updateByIndex i (\<lambda>b. b\<lparr>state := st\<rparr>) c"

definition isEnabled :: "Breakpoint \<Rightarrow> bool" where
  "isEnabled b = (state b = ENABLED \<or> state b = ONCE)"

definition getAllEnabledBreakpointsForSource ::
  "string \<Rightarrow> BreakpointCollection \<Rightarrow> Breakpoint list" where
  "getAllEnabledBreakpointsForSource p c =
     filter (\<lambda>b. func b = None \<and> path b = Some p \<and> isEnabled b) (allBreakpoints c)"

definition getAllEnabledFunctionBreakpoints :: "BreakpointCollection \<Rightarrow> Breakpoint list" where
  "getAllEnabledFunctionBreakpoints c =
     filter (\<lambda>b. func b \<noteq> None \<and> isEnabled b) (allBreakpoints c)"

definition enabledPaths :: "BreakpointCollection \<Rightarrow> string list" where
  "enabledPaths c =
     remdups (concat (map (\<lambda>b. case path b of None \<Rightarrow> [] | Some p \<Rightarrow> [p])
                          (filter (\<lambda>b. func b = None \<and> isEnabled b) (allBreakpoints c))))"

definition getAllEnabledBreakpointsByPath ::
  "BreakpointCollection \<Rightarrow> (string \<times> Breakpoint list) list" where
  "getAllEnabledBreakpointsByPath c =
     map (\<lambda>p. (p, getAllEnabledBreakpointsForSource p c)) (enabledPaths c)"

text \<open>
  Modelled from the spec: the classes \<open>Thread\<close> and \<open>ThreadCollection\<close> (not among
  the sources). Section 3: a thread has an integer id, a name, a stopped flag and a
  selected frame; the collection holds the threads and a nullable focus thread id.
  \<open>firstStoppedThread\<close> returns the stopped thread of least id (section 4.C).
\<close>

record Thread =
  tid :: int
  name :: string
  stopped :: bool
  selectedFrame :: nat

record ThreadCollection =
  allThreads :: "Thread list"
  focusThreadId :: "int option"

text \<open>
  Modelled from the spec: the operations of \<open>ThreadCollection\<close> and \<open>Thread\<close> that
  \<open>_onStopped\<close> and \<open>_pauseAfterAttach\<close> call (sections 4.B and 4.C).
\<close>

definition allThreadsRunning :: "ThreadCollection \<Rightarrow> bool" where
  "allThreadsRunning ts = list_all (\<lambda>t. \<not> stopped t) (allThreads ts)"

definition markAllThreadsStopped :: "ThreadCollection \<Rightarrow> ThreadCollection" where
  "markAllThreadsStopped ts = ts\<lparr>allThreads := map (\<lambda>t. t\<lparr>stopped := True\<rparr>) (allThreads ts)\<rparr>"

definition markThreadStopped :: "int \<Rightarrow> ThreadCollection \<Rightarrow> ThreadCollection" where
  "markThreadStopped i ts =
     ts\<lparr>allThreads := map (\<lambda>t. if tid t = i then t\<lparr>stopped := True\<rparr> else t) (allThreads ts)\<rparr>"

definition clearSelectedStackFrame :: "Thread \<Rightarrow> Thread" where
  "clearSelectedStackFrame t = t\<lparr>selectedFrame := 0\<rparr>"

definition getThreadById :: "int \<Rightarrow> ThreadCollection \<Rightarrow> Thread option" where
  "getThreadById i ts = find (\<lambda>t. tid t = i) (allThreads ts)"

definition setFocusThread :: "int \<Rightarrow> ThreadCollection \<Rightarrow> ThreadCollection" where
  "setFocusThread i ts = ts\<lparr>focusThreadId := Some i\<rparr>"

fun leastTid :: "Thread list \<Rightarrow> int option" where
  "leastTid [] = None"
| "leastTid (t # ts) =
     (case leastTid ts of
        None \<Rightarrow> Some (tid t)
      | Some m \<Rightarrow> Some (min (tid t) m))"

definition firstStoppedThread :: "ThreadCollection \<Rightarrow> int option" where
  "firstStoppedThread ts = leastTid (filter stopped (allThreads ts))"

section \<open>Adapter session and engine state\<close>

text \<open>
  \<open>RemoteBreakpoint\<close> is \<open>DebugProtocol.Breakpoint\<close>, an element of a response of the
  adapter; every field the engine tests against null is an option. \<open>rsource\<close> is
  \<open>None\<close> when the element has no \<open>source\<close>, and \<open>Some p\<close> when it has one whose
  \<open>path\<close> is \<open>p\<close>.
\<close>

record RemoteBreakpoint =
  rid :: "int option"
  rverified :: "bool option"
  rmessage :: "string option"
  rsource :: "string option option"
  rline :: "int option"

text \<open>
  What the engine does to its collaborators, in order: the calls on \<open>ConsoleIO\<close>, the
  requests sent to the adapter, and \<open>process.exit\<close>. \<open>OutputLineExited c\<close> is the line
  \<open>Target exited with status c\<close>, and \<open>OutputLineFailedToGetSource\<close> the line
  \<open>failed to get source at stop point: ...\<close> with the message of the error caught.
\<close>

datatype Action =
    StartInput
  | StopInput
  | Output string
  | OutputLine string
  | OutputLineExited int
  | OutputLineFailedToGetSource
  | SetBreakpointsRequest string "int option list"
  | SetFunctionBreakpointsRequest "string option list"
  | PauseRequest int
  | DisconnectRequest
  | ProcessExit int

text \<open>
  \<open>Session\<close> is the \<open>VsDebugSession\<close> the engine talks to: the capability it reads and,
  for each request the modelled operations await, the response of the adapter (\<open>Inl\<close>
  when the request fails). \<open>topOfStackSourceInfo\<close> stands for the outcome of
  \<open>_getTopOfStackSourceInfo\<close>, which only reads the adapter and the file system:
  \<open>None\<close> when it throws, \<open>Some None\<close> when it finds no source, and the banner
  \<open>name:line text\<close> when it finds one.
\<close>

record Session =
  supportsFunctionBreakpoints :: bool
  setBreakpoints :: "string \<Rightarrow> int option list \<Rightarrow> Error + RemoteBreakpoint list"
  setFunctionBreakpoints :: "string option list \<Rightarrow> Error + RemoteBreakpoint list"
  pause :: "int \<Rightarrow> Error + unit"
  topOfStackSourceInfo :: "int \<Rightarrow> string option option"

record Adapter =
  asyncStopThread :: "int option"

text \<open>
  The fields of \<open>Debugger\<close> the modelled operations read or write. \<open>_debugSession\<close> is
  not a field here: every operation takes it as its first argument, \<open>None\<close> for null.
\<close>

record Debugger =
  sessionState :: SessionState
  breakpoints :: BreakpointCollection
  threads :: ThreadCollection
  adapter :: "Adapter option"
  attachMode :: bool
  readyForEvaluations :: bool
  muteOutputCategories :: "string set"
  attached :: bool
  configured :: bool
  stoppedAtBreakpoint :: "nat option"
  disconnecting :: bool
  trace :: "Action list"

record OutputEvent =
  category :: "string option"
  outputText :: "string option"

record StoppedEvent =
  description :: "string option"
  threadId :: "int option"
  allThreadsStopped :: "bool option"
  breakpointId :: "int option"

record ExitedEvent =
  exitCode :: int

definition emit :: "Action \<Rightarrow> Debugger \<Rightarrow> Debugger" where
  "emit a d = d\<lparr>trace := trace d @ [a]\<rparr>"

section \<open>Engine operations\<close>

definition ensureDebugSession ::
  "Session option \<Rightarrow> bool \<Rightarrow> Debugger \<Rightarrow> Error + Session" where
  "ensureDebugSession ds allowBeforeLaunch d =
     (case ds of
        None \<Rightarrow> Inl NoActiveSession
      | Some session \<Rightarrow>
          if (sessionState d = INITIALIZING \<or> sessionState d = CONFIGURING)
             \<and> \<not> allowBeforeLaunch
          then Inl NotRunning
          else Inr session)"

definition couldNotSet :: string where
  "couldNotSet =
     ''Could not set this breakpoint. The module may not have been loaded yet.''"

definition pendingMessage :: string where
  "pendingMessage = ''Breakpoint pending until program starts.''"

text \<open>
  \<open>_updateBreakpoint\<close>: the registry after the update, and the response element, whose
  \<open>message\<close> the function overwrites when the breakpoint was not set and no reason came.
\<close>

definition updateBreakpoint ::
  "Breakpoint \<Rightarrow> RemoteBreakpoint \<Rightarrow> BreakpointCollection
     \<Rightarrow> RemoteBreakpoint \<times> BreakpointCollection" where
  "updateBreakpoint local remote c =
     (let i = index local;
          c1 = (case rid remote of
                  Some v \<Rightarrow>
                    (let c' = setBreakpointId i v c in
                     case rverified remote of
                       Some b \<Rightarrow> setBreakpointVerified i b c'
                     | None \<Rightarrow> c')
                | None \<Rightarrow> setBreakpointVerified i True c);
          c2 = (if func local \<noteq> None then
                  (case rsource remote of
                     Some (Some p) \<Rightarrow>
                       (case rline remote of
                          Some l \<Rightarrow> setPathAndFile i p l c1
                        | None \<Rightarrow> c1)
                   | _ \<Rightarrow> c1)
                else c1);
          remote' = (if rverified remote \<noteq> Some True
                        \<and> (rmessage remote = None \<or> rmessage remote = Some [])
                     then remote\<lparr>rmessage := Some couldNotSet\<rparr>
                     else remote)
      in (remote', c2))"

text \<open>
  The positional pairing of the request list with the response list, followed by the
  loop over the pairs. A response shorter than the request pairs a breakpoint with
  \<open>undefined\<close>, and \<open>_updateBreakpoint\<close> throws a TypeError on reading its \<open>id\<close>; the
  updates made before it stay.
\<close>

fun updateBreakpoints ::
  "Breakpoint list \<Rightarrow> RemoteBreakpoint list \<Rightarrow> BreakpointCollection
     \<Rightarrow> (Error + RemoteBreakpoint list) \<times> BreakpointCollection" where
  "updateBreakpoints [] rs c = (Inr [], c)"
| "updateBreakpoints (l # ls) [] c = (Inl TypeError, c)"
| "updateBreakpoints (l # ls) (r # rs) c =
     (case updateBreakpoint l r c of
        (r', c') \<Rightarrow>
          (case updateBreakpoints ls rs c' of
             (Inl e, c'') \<Rightarrow> (Inl e, c'')
           | (Inr rs', c'') \<Rightarrow> (Inr (r' # rs'), c'')))"

definition ofInterest ::
  "nat option \<Rightarrow> Breakpoint list \<Rightarrow> RemoteBreakpoint list \<Rightarrow> RemoteBreakpoint option" where
  "ofInterest indexOfInterest ls rs =
     map_option snd (find (\<lambda>(l, r). Some (index l) = indexOfInterest) (zip ls rs))"

definition setSourceBreakpointsForPath ::
  "Session \<Rightarrow> string \<Rightarrow> nat option \<Rightarrow> Debugger
     \<Rightarrow> (Error + RemoteBreakpoint option) \<times> Debugger" where
  "setSourceBreakpointsForPath session p indexOfInterest d =
     (let localBreakpoints = getAllEnabledBreakpointsForSource p (breakpoints d);
          d1 = emit (SetBreakpointsRequest p (map line localBreakpoints)) d
      in case setBreakpoints session p (map line localBreakpoints) of
           Inl e \<Rightarrow> (Inl e, d1)
         | Inr adapterBreakpoints \<Rightarrow>
             (case updateBreakpoints localBreakpoints adapterBreakpoints (breakpoints d1) of
                (Inl e, c) \<Rightarrow> (Inl e, d1\<lparr>breakpoints := c\<rparr>)
              | (Inr rs, c) \<Rightarrow>
                  (Inr (ofInterest indexOfInterest localBreakpoints rs),
                   d1\<lparr>breakpoints := c\<rparr>)))"

definition setFunctionBreakpointsOfInterest ::
  "Session \<Rightarrow> nat \<Rightarrow> Debugger \<Rightarrow> (Error + RemoteBreakpoint option) \<times> Debugger" where
  "setFunctionBreakpointsOfInterest session indexOfInterest d =
     (let funcBreakpoints = getAllEnabledFunctionBreakpoints (breakpoints d);
          d1 = emit (SetFunctionBreakpointsRequest (map func funcBreakpoints)) d
      in case setFunctionBreakpoints session (map func funcBreakpoints) of
           Inl e \<Rightarrow> (Inl e, d1)
         | Inr adapterBreakpoints \<Rightarrow>
             (case updateBreakpoints funcBreakpoints adapterBreakpoints (breakpoints d1) of
                (Inl e, c) \<Rightarrow> (Inl e, d1\<lparr>breakpoints := c\<rparr>)
              | (Inr rs, c) \<Rightarrow>
                  (Inr (ofInterest (Some indexOfInterest) funcBreakpoints rs),
                   d1\<lparr>breakpoints := c\<rparr>)))"

definition setSourceBreakpoint ::
  "Session option \<Rightarrow> string \<Rightarrow> int \<Rightarrow> bool \<Rightarrow> Debugger
     \<Rightarrow> (Error + nat \<times> string option) \<times> Debugger" where
  "setSourceBreakpoint ds p l once d =
     (if once \<and> \<not> onceState (breakpoints d) then (Inl OnceUnsupported, d)
      else case ensureDebugSession ds True d of
             Inl e \<Rightarrow> (Inl e, d)
           | Inr session \<Rightarrow>
               (case addSourceBreakpoint p l once (breakpoints d) of
                  (i, c) \<Rightarrow>
                    (let d1 = d\<lparr>breakpoints := c\<rparr> in
                     if sessionState d \<noteq> CONFIGURING then
                       (case setSourceBreakpointsForPath session p (Some i) d1 of
                          (Inl e, d2) \<Rightarrow> (Inl e, d2)
                        | (Inr None, d2) \<Rightarrow> (Inr (i, None), d2)
                        | (Inr (Some r), d2) \<Rightarrow> (Inr (i, rmessage r), d2))
                     else (Inr (i, Some pendingMessage), d1))))"

definition setFunctionBreakpoint ::
  "Session option \<Rightarrow> string \<Rightarrow> bool \<Rightarrow> Debugger
     \<Rightarrow> (Error + nat \<times> string option) \<times> Debugger" where
  "setFunctionBreakpoint ds f once d =
     (case ensureDebugSession ds True d of
        Inl e \<Rightarrow> (Inl e, d)
      | Inr session \<Rightarrow>
          if \<not> supportsFunctionBreakpoints session
          then (Inl FunctionBreakpointsUnsupported, d)
          else if once \<and> \<not> onceState (breakpoints d) then (Inl OnceUnsupported, d)
          else (case addFunctionBreakpoint f once (breakpoints d) of
                  (i, c) \<Rightarrow>
                    (let d1 = d\<lparr>breakpoints := c\<rparr> in
                     if sessionState d \<noteq> CONFIGURING then
                       (case setFunctionBreakpointsOfInterest session i d1 of
                          (Inl e, d2) \<Rightarrow> (Inl e, d2)
                        | (Inr None, d2) \<Rightarrow> (Inr (i, None), d2)
                        | (Inr (Some r), d2) \<Rightarrow> (Inr (i, rmessage r), d2))
                     else (Inr (i, Some pendingMessage), d1))))"

definition resetAllFunctionBreakpoints ::
  "Session option \<Rightarrow> Debugger \<Rightarrow> (Error + unit) \<times> Debugger" where
  "resetAllFunctionBreakpoints ds d =
     (case ensureDebugSession ds False d of
        Inl e \<Rightarrow> (Inl e, d)
      | Inr session \<Rightarrow>
          (let funcBreakpoints = getAllEnabledFunctionBreakpoints (breakpoints d) in
           if \<not> supportsFunctionBreakpoints session \<or> funcBreakpoints = []
           then (Inr (), d)
           else
             (let d1 = emit (SetFunctionBreakpointsRequest (map func funcBreakpoints)) d
              in case setFunctionBreakpoints session (map func funcBreakpoints) of
                   Inl e \<Rightarrow> (Inl e, d1)
                 | Inr funcBreakpointsOut \<Rightarrow>
                     (case updateBreakpoints funcBreakpoints funcBreakpointsOut
                             (breakpoints d1) of
                        (Inl e, c) \<Rightarrow> (Inl e, d1\<lparr>breakpoints := c\<rparr>)
                      | (Inr rs, c) \<Rightarrow> (Inr (), d1\<lparr>breakpoints := c\<rparr>)))))"

text \<open>
  \<open>_resetAllBreakpoints\<close> starts one task per source path and one for the function
  breakpoints, and waits for all of them. Every task sends its request when it is
  started, whatever becomes of the others, and updates the registry when its response
  arrives. The model runs the tasks one after the other, in the order in which they are
  started, and reports the first failure in that order; the requests leave in the same
  order, and the registry is the same because the tasks update different breakpoints.
\<close>

definition firstError :: "Error + unit \<Rightarrow> Error + unit \<Rightarrow> Error + unit" where
  "firstError a b = (case a of Inl e \<Rightarrow> Inl e | Inr u \<Rightarrow> b)"

definition resetSourceBreakpointSet ::
  "Session \<Rightarrow> string \<times> Breakpoint list \<Rightarrow> (Error + unit) \<times> Debugger
     \<Rightarrow> (Error + unit) \<times> Debugger" where
  "resetSourceBreakpointSet session pb acc =
     (case pb of
        (p, breakpointLines) \<Rightarrow>
          (case acc of
             (res, d) \<Rightarrow>
               (let d1 = emit (SetBreakpointsRequest p (map line breakpointLines)) d
                in case setBreakpoints session p (map line breakpointLines) of
                     Inl e \<Rightarrow> (firstError res (Inl e), d1)
                   | Inr breakpointsOut \<Rightarrow>
                       (case updateBreakpoints breakpointLines breakpointsOut
                               (breakpoints d1) of
                          (Inl e, c) \<Rightarrow> (firstError res (Inl e), d1\<lparr>breakpoints := c\<rparr>)
                        | (Inr rs, c) \<Rightarrow> (res, d1\<lparr>breakpoints := c\<rparr>)))))"

definition resetAllBreakpoints ::
  "Session option \<Rightarrow> Debugger \<Rightarrow> (Error + unit) \<times> Debugger" where
  "resetAllBreakpoints ds d =
     (case ensureDebugSession ds False d of
        Inl e \<Rightarrow> (Inl e, d)
      | Inr session \<Rightarrow>
          (case fold (resetSourceBreakpointSet session)
                  (getAllEnabledBreakpointsByPath (breakpoints d)) (Inr (), d) of
             (res, d1) \<Rightarrow>
               (case resetAllFunctionBreakpoints ds d1 of
                  (res', d2) \<Rightarrow> (firstError res res', d2))))"


text \<open>
  \<open>setBreakpointEnabled\<close> and \<open>toggleBreakpoint\<close> take a \<open>Breakpoint\<close> object, which the
  dispatcher gets from \<open>getBreakpointByIndex\<close>; the model takes its index and reads the
  registry entry.
\<close>

definition setBreakpointEnabled ::
  "Session option \<Rightarrow> nat \<Rightarrow> bool \<Rightarrow> Debugger \<Rightarrow> (Error + unit) \<times> Debugger" where
  "setBreakpointEnabled ds i enabled d =
     (case ensureDebugSession ds False d of
        Inl e \<Rightarrow> (Inl e, d)
      | Inr session \<Rightarrow>
          (case getBreakpointByIndex i (breakpoints d) of
             Inl e \<Rightarrow> (Inl e, d)
           | Inr breakpoint \<Rightarrow>
               if state breakpoint \<noteq> ENABLED then (Inr (), d)
               else
                 (let oldState = state breakpoint;
                      d1 = d\<lparr>breakpoints :=
                             setState i (if enabled then ENABLED else DISABLED)
                               (breakpoints d)\<rparr>
                  in case path breakpoint of
                       Some p \<Rightarrow>
                         (case setSourceBreakpointsForPath session p (Some i) d1 of
                            (Inl e, d2) \<Rightarrow>
                              (Inl e, d2\<lparr>breakpoints := setState i oldState (breakpoints d2)\<rparr>)
                          | (Inr r, d2) \<Rightarrow> (Inr (), d2))
                     | None \<Rightarrow> resetAllFunctionBreakpoints ds d1)))"

definition toggleBreakpoint ::
  "Session option \<Rightarrow> nat \<Rightarrow> Debugger \<Rightarrow> (Error + unit) \<times> Debugger" where
  "toggleBreakpoint ds i d =
     (case ensureDebugSession ds False d of
        Inl e \<Rightarrow> (Inl e, d)
      | Inr session \<Rightarrow>
          (case getBreakpointByIndex i (breakpoints d) of
             Inl e \<Rightarrow> (Inl e, d)
           | Inr breakpoint \<Rightarrow>
               (let oldState = state breakpoint;
                    d1 = d\<lparr>breakpoints :=
                           setState i (toggleState oldState) (breakpoints d)\<rparr>
                in case path breakpoint of
                     Some p \<Rightarrow>
                       (case setSourceBreakpointsForPath session p (Some i) d1 of
                          (Inl e, d2) \<Rightarrow>
                            (Inl e, d2\<lparr>breakpoints := setState i oldState (breakpoints d2)\<rparr>)
                        | (Inr r, d2) \<Rightarrow> (Inr (), d2))
                   | None \<Rightarrow> resetAllFunctionBreakpoints ds d1)))"

text \<open>
  The subscription to the output events of the session, with its filter, and
  \<open>_onOutput\<close>.
\<close>

definition onOutput :: "OutputEvent \<Rightarrow> Debugger \<Rightarrow> Debugger" where
  "onOutput ev d =
     emit (Output (case outputText ev of None \<Rightarrow> [] | Some t \<Rightarrow> t)) d"

definition observeOutputEvent :: "OutputEvent \<Rightarrow> Debugger \<Rightarrow> Debugger" where
  "observeOutputEvent ev d =
     (case category ev of
        None \<Rightarrow> d
      | Some cat \<Rightarrow> if cat \<notin> muteOutputCategories d then onOutput ev d else d)"

definition pauseAfterAttach ::
  "Session option \<Rightarrow> Debugger \<Rightarrow> (Error + unit) \<times> Debugger" where
  "pauseAfterAttach ds d =
     (if configured d \<and> attached d then
        (case ensureDebugSession ds True d of
           Inl e \<Rightarrow> (Inl e, d)
         | Inr session \<Rightarrow>
             (case adapter d of
                None \<Rightarrow> (Inl NoAdapter, d)
              | Some a \<Rightarrow>
                  (let stopThread =
                         (case asyncStopThread a of
                            Some t \<Rightarrow> Some t
                          | None \<Rightarrow>
                              (case allThreads (threads d) of
                                 [] \<Rightarrow> None
                               | t # ts \<Rightarrow> Some (tid t)))
                   in case stopThread of
                        None \<Rightarrow> (Inr (), emit StopInput d)
                      | Some t \<Rightarrow>
                          (case pause session t of
                             Inl e \<Rightarrow> (Inl e, emit (PauseRequest t) d)
                           | Inr u \<Rightarrow> (Inr (), emit (PauseRequest t) d)))))
      else (Inr (), d))"

definition disableBreakpointIfOneShot ::
  "Session option \<Rightarrow> int option \<Rightarrow> Debugger \<Rightarrow> (Error + unit) \<times> Debugger" where
  "disableBreakpointIfOneShot ds bid' d =
     (case bid' of
        None \<Rightarrow> (Inr (), d)
      | Some bid \<Rightarrow>
          (case getBreakpointById bid (breakpoints d) of
             Inl e \<Rightarrow> (Inl e, d)
           | Inr bpt \<Rightarrow>
               if state bpt = ONCE then
                 resetAllBreakpoints ds
                   (d\<lparr>breakpoints := setState (index bpt) DISABLED (breakpoints d)\<rparr>)
               else (Inr (), d)))"

text \<open>
  \<open>_onStopped\<close>: \<open>onStopped\<close> runs up to the await on
  \<open>_disableBreakpointIfOneShot\<close> and \<open>afterOneShot\<close> is what follows it, with the
  marking of the stopped threads in \<open>markStopped\<close> and the body of the last
  \<open>if (firstStop)\<close> in \<open>firstStopped\<close>. The \<open>onStopped\<close>
  hooks of the registered commands belong to the dispatcher and are left out.
\<close>

definition unrecognizedBreakpoint :: string where
  "unrecognizedBreakpoint =
     ''Debugger stopped at unrecognized breakpoint -- current breakpoint will not be valid.''"

definition markStopped :: "StoppedEvent \<Rightarrow> Debugger \<Rightarrow> (Error + unit) \<times> Debugger" where
  "markStopped ev d =
     (if allThreadsStopped ev = Some True then
        (Inr (), d\<lparr>threads := (markAllThreadsStopped (threads d))
                      \<lparr>allThreads := map clearSelectedStackFrame
                                        (allThreads (markAllThreadsStopped (threads d)))\<rparr>\<rparr>)
      else
        (case threadId ev of
           Some t \<Rightarrow>
             (let ts = markThreadStopped t (threads d) in
              case getThreadById t ts of
                None \<Rightarrow> (Inl StoppedThreadMissing, d\<lparr>threads := ts\<rparr>)
              | Some thread \<Rightarrow>
                  (Inr (), d\<lparr>threads := ts
                      \<lparr>allThreads := map (\<lambda>x. if tid x = t then clearSelectedStackFrame x else x)
                                        (allThreads ts)\<rparr>\<rparr>))
         | None \<Rightarrow>
             (Inr (), emit (OutputLine ''stop event with no thread information.'') d)))"

definition firstStopped ::
  "Session option \<Rightarrow> StoppedEvent \<Rightarrow> Debugger \<Rightarrow> (Error + unit) \<times> Debugger" where
  "firstStopped ds ev d =
     (case (case threadId ev of
              Some t \<Rightarrow> Some t
            | None \<Rightarrow> firstStoppedThread (threads d)) of
        None \<Rightarrow> (Inl InvariantViolation, d)
      | Some f \<Rightarrow>
          (let d1 = d\<lparr>threads := setFocusThread f (threads d)\<rparr>;
               d2 = (case focusThreadId (threads d1) of
                       None \<Rightarrow> emit OutputLineFailedToGetSource d1
                     | Some focusThread \<Rightarrow>
                         (case ds of
                            None \<Rightarrow> emit OutputLineFailedToGetSource d1
                          | Some session \<Rightarrow>
                              (case topOfStackSourceInfo session focusThread of
                                 None \<Rightarrow> emit OutputLineFailedToGetSource d1
                               | Some None \<Rightarrow> d1
                               | Some (Some banner) \<Rightarrow> emit (OutputLine banner) d1)))
           in (Inr (), emit StartInput (d2\<lparr>sessionState := STOPPED\<rparr>))))"

definition afterOneShot ::
  "Session option \<Rightarrow> StoppedEvent \<Rightarrow> Debugger \<Rightarrow> (Error + unit) \<times> Debugger" where
  "afterOneShot ds ev d =
     (let firstStop = allThreadsRunning (threads d);
          d1 = (if firstStop then
                  (case description ev of
                     Some s \<Rightarrow> emit (OutputLine (''Stopped: '' @ s)) d
                   | None \<Rightarrow> d)
                else d)
      in case markStopped ev d1 of
           (Inl e, d2) \<Rightarrow> (Inl e, d2)
         | (Inr u, d2) \<Rightarrow>
             if firstStop then firstStopped ds ev d2 else (Inr (), d2))"

definition onStopped ::
  "Session option \<Rightarrow> StoppedEvent \<Rightarrow> Debugger \<Rightarrow> (Error + unit) \<times> Debugger" where
  "onStopped ds ev d =
     (let d0 = d\<lparr>stoppedAtBreakpoint := None\<rparr>;
          d1 = (case breakpointId ev of
                  None \<Rightarrow> d0
                | Some bid \<Rightarrow>
                    (case getBreakpointById bid (breakpoints d0) of
                       Inr b \<Rightarrow> d0\<lparr>stoppedAtBreakpoint := Some (index b)\<rparr>
                     | Inl e \<Rightarrow> emit (OutputLine unrecognizedBreakpoint) d0))
      in case disableBreakpointIfOneShot ds (breakpointId ev) d1 of
           (Inl e, d2) \<Rightarrow> (Inl e, d2)
         | (Inr u, d2) \<Rightarrow> afterOneShot ds ev d2)"

text \<open>
  \<open>relaunch\<close> up to its first suspension, the await on \<open>closeSession\<close>, itself
  followed up to its await on \<open>disconnect\<close>. The handlers below call \<open>relaunch\<close>
  without awaiting it, so this is what it has done when they return.
\<close>

definition relaunch :: "Session option \<Rightarrow> Debugger \<Rightarrow> (Error + unit) \<times> Debugger" where
  "relaunch ds d =
     (case adapter d of
        None \<Rightarrow> (Inl NoAdapter, d)
      | Some a \<Rightarrow>
          (let d1 = d\<lparr>sessionState := INITIALIZING, configured := False, attached := False\<rparr>
           in case ds of
                None \<Rightarrow> (Inr (), d1)
              | Some session \<Rightarrow> (Inr (), emit DisconnectRequest (d1\<lparr>disconnecting := True\<rparr>))))"

text \<open>
  What the three termination handlers share once the state is \<open>TERMINATED\<close>: the
  invariant on the adapter, then the REPL and \<open>relaunch()\<close> in launch mode, or
  \<open>process.exit(0)\<close> in attach mode.
\<close>

definition afterTerminated ::
  "Session option \<Rightarrow> Debugger \<Rightarrow> (Error + unit) \<times> Debugger" where
  "afterTerminated ds d =
     (case adapter d of
        None \<Rightarrow> (Inl InvariantViolation, d)
      | Some a \<Rightarrow>
          if \<not> attachMode d then (Inr (), snd (relaunch ds (emit StartInput d)))
          else (Inr (), emit (ProcessExit 0) d))"

definition onExitedDebugee ::
  "Session option \<Rightarrow> ExitedEvent \<Rightarrow> Debugger \<Rightarrow> (Error + unit) \<times> Debugger" where
  "onExitedDebugee ds ev d =
     afterTerminated ds
       (emit (OutputLineExited (exitCode ev)) (d\<lparr>sessionState := TERMINATED\<rparr>))"

definition onTerminatedDebugee ::
  "Session option \<Rightarrow> Debugger \<Rightarrow> (Error + unit) \<times> Debugger" where
  "onTerminatedDebugee ds d =
     (if sessionState d \<noteq> RUNNING then (Inr (), d)
      else afterTerminated ds
             (emit (OutputLine ''The target has exited.'') (d\<lparr>sessionState := TERMINATED\<rparr>)))"

definition onAdapterExited ::
  "Session option \<Rightarrow> Debugger \<Rightarrow> (Error + unit) \<times> Debugger" where
  "onAdapterExited ds d =
     (if sessionState d = INITIALIZING \<and> disconnecting d then (Inr (), d)
      else afterTerminated ds (d\<lparr>sessionState := TERMINATED\<rparr>))"

text \<open>
  The registry invariant of section 3: indices are unique and below the next index to
  hand out.
\<close>

definition wellFormed :: "BreakpointCollection \<Rightarrow> bool" where
  "wellFormed c =
     (distinct (map index (allBreakpoints c))
      \<and> list_all (\<lambda>b. index b < nextIndex c) (allBreakpoints c))"

text \<open>
  The constructor of \<open>Debugger\<close>: the initial values of the fields, for a given set of
  muted output categories.
\<close>

definition newDebugger :: "string set \<Rightarrow> Debugger" where
  "newDebugger mute =
     \<lparr>sessionState = INITIALIZING,
      breakpoints = \<lparr>allBreakpoints = [], nextIndex = 0, onceState = False\<rparr>,
      threads = \<lparr>allThreads = [], focusThreadId = None\<rparr>,
      adapter = None,
      attachMode = False,
      readyForEvaluations = False,
      muteOutputCategories = mute,
      attached = False,
      configured = False,
      stoppedAtBreakpoint = None,
      disconnecting = False,
      trace = []\<rparr>"

section \<open>Notions used to state the properties\<close>

text \<open>
  What \<open>_updateBreakpoint\<close> does to the registry entry \<open>b\<close> of the local breakpoint
  \<open>l\<close> for the response element \<open>r\<close>, and what it does to an arbitrary entry.
\<close>

definition updatedBy :: "Breakpoint \<Rightarrow> RemoteBreakpoint \<Rightarrow> Breakpoint \<Rightarrow> Breakpoint" where
  "updatedBy l r b =
     (let b1 = (case rid r of
                  Some v \<Rightarrow>
                    (case rverified r of
                       Some x \<Rightarrow> b\<lparr>bp_id := Some v, verified := x\<rparr>
                     | None \<Rightarrow> b\<lparr>bp_id := Some v\<rparr>)
                | None \<Rightarrow> b\<lparr>verified := True\<rparr>)
      in if func l \<noteq> None then
           (case rsource r of
              Some (Some p) \<Rightarrow>
                (case rline r of
                   Some n \<Rightarrow> b1\<lparr>path := Some p, line := Some n\<rparr>
                 | None \<Rightarrow> b1)
            | _ \<Rightarrow> b1)
         else b1)"

definition step :: "Breakpoint \<times> RemoteBreakpoint \<Rightarrow> Breakpoint \<Rightarrow> Breakpoint" where
  "step lr b = (if index b = index (fst lr) then updatedBy (fst lr) (snd lr) b else b)"

definition mapBreakpoints ::
  "(Breakpoint \<Rightarrow> Breakpoint) \<Rightarrow> BreakpointCollection \<Rightarrow> BreakpointCollection" where
  "mapBreakpoints f c = c\<lparr>allBreakpoints := map f (allBreakpoints c)\<rparr>"

text \<open>
  The pairs a task of \<open>_resetAllBreakpoints\<close> processes: none when its request fails,
  and as many as the shorter of the request and the response otherwise.
\<close>

definition sourcePairs ::
  "Session \<Rightarrow> string \<times> Breakpoint list \<Rightarrow> (Breakpoint \<times> RemoteBreakpoint) list" where
  "sourcePairs session pb =
     (case setBreakpoints session (fst pb) (map line (snd pb)) of
        Inl e \<Rightarrow> []
      | Inr rs \<Rightarrow> zip (snd pb) rs)"

definition sourceRequest :: "string \<times> Breakpoint list \<Rightarrow> Action" where
  "sourceRequest pb = SetBreakpointsRequest (fst pb) (map line (snd pb))"

definition functionPairs ::
  "Session \<Rightarrow> BreakpointCollection \<Rightarrow> (Breakpoint \<times> RemoteBreakpoint) list" where
  "functionPairs session c =
     (if \<not> supportsFunctionBreakpoints session \<or> getAllEnabledFunctionBreakpoints c = []
      then []
      else case setFunctionBreakpoints session
                  (map func (getAllEnabledFunctionBreakpoints c)) of
             Inl e \<Rightarrow> []
           | Inr rs \<Rightarrow> zip (getAllEnabledFunctionBreakpoints c) rs)"

definition functionRequests :: "Session \<Rightarrow> BreakpointCollection \<Rightarrow> Action list" where
  "functionRequests session c =
     (if \<not> supportsFunctionBreakpoints session \<or> getAllEnabledFunctionBreakpoints c = []
      then []
      else [SetFunctionBreakpointsRequest (map func (getAllEnabledFunctionBreakpoints c))])"

definition isRequest :: "Action \<Rightarrow> bool" where
  "isRequest a =
     (case a of
        SetBreakpointsRequest p ls \<Rightarrow> True
      | SetFunctionBreakpointsRequest fs \<Rightarrow> True
      | _ \<Rightarrow> False)"

text \<open>
  The registry entry of the local breakpoint \<open>l\<close> carries the response element \<open>r\<close>:
  it has the \<open>id\<close> of \<open>r\<close> when \<open>r\<close> has one and keeps its own otherwise; its
  \<open>verified\<close> is true when \<open>r\<close> has no \<open>id\<close>, is that of \<open>r\<close> when \<open>r\<close> has an \<open>id\<close>
  and a \<open>verified\<close>, and is kept otherwise; its \<open>message\<close> is kept.
\<close>

definition carriesResponse ::
  "Breakpoint \<Rightarrow> RemoteBreakpoint \<Rightarrow> BreakpointCollection \<Rightarrow> bool" where
  "carriesResponse l r c =
     (case getBreakpointByIndex (index l) c of
        Inl e \<Rightarrow> False
      | Inr b \<Rightarrow>
          bp_id b = (case rid r of Some v \<Rightarrow> Some v | None \<Rightarrow> bp_id l)
          \<and> verified b =
              (case rid r of
                 None \<Rightarrow> True
               | Some v \<Rightarrow> (case rverified r of Some x \<Rightarrow> x | None \<Rightarrow> verified l))
          \<and> message b = message l)"

text \<open>
  The pairs and the requests of a whole \<open>_resetAllBreakpoints\<close>: those of the source
  paths, in order, then those of the function breakpoints.
\<close>

definition allPairs :: "Session \<Rightarrow> BreakpointCollection \<Rightarrow> (Breakpoint \<times> RemoteBreakpoint) list" where
  "allPairs session c =
     concat (map (sourcePairs session) (getAllEnabledBreakpointsByPath c))
     @ functionPairs session
         (mapBreakpoints
            (fold step (concat (map (sourcePairs session) (getAllEnabledBreakpointsByPath c)))) c)"

definition allRequests :: "Session \<Rightarrow> BreakpointCollection \<Rightarrow> Action list" where
  "allRequests session c =
     map sourceRequest (getAllEnabledBreakpointsByPath c)
     @ functionRequests session
         (mapBreakpoints
            (fold step (concat (map (sourcePairs session) (getAllEnabledBreakpointsByPath c)))) c)"

text \<open>
  What \<open>_updateBreakpoint\<close> leaves in the response element: its message is replaced
  by a stock one when the element is not verified and gives no message.
\<close>

definition withMessage :: "RemoteBreakpoint \<Rightarrow> RemoteBreakpoint" where
  "withMessage r =
     (if rverified r \<noteq> Some True \<and> (rmessage r = None \<or> rmessage r = Some [])
      then r\<lparr>rmessage := Some couldNotSet\<rparr>
      else r)"





section \<open>Concrete sessions and states for the examples\<close>

text \<open>
  An adapter that accepts every request: it answers a \<open>setBreakpoints\<close> with one
  unverified element per line, without an \<open>id\<close> and with a message, and a
  \<open>setFunctionBreakpoints\<close> with one verified element per name, resolved to a source.
  \<open>failingSession\<close> is the same adapter failing every \<open>setBreakpoints\<close>.
  \<open>launchedDebugger\<close> is a fresh engine in launch mode whose program is running;
  \<open>debuggerWithBreakpoint\<close> has one source breakpoint, which is disabled in
  \<open>debuggerWithDisabled\<close>, and \<open>debuggerWithOnce\<close> has a
  one-shot breakpoint known to the adapter as 5, a second breakpoint in the same file,
  and one running thread. \<open>verifyingSession\<close> answers a \<open>setBreakpoints\<close> with a
  verified element per line whose \<open>id\<close> is the line plus 100;
  \<open>debuggerWithThree\<close> has two source breakpoints in one file and a function
  breakpoint, of which \<open>debuggerMixed\<close> disables the first and the last.
\<close>

definition exampleSession :: Session where
  "exampleSession =
     \<lparr>supportsFunctionBreakpoints = True,
      setBreakpoints = (\<lambda>p ls. Inr (map (\<lambda>l. \<lparr>rid = None, rverified = Some False,
                           rmessage = Some ''no code at this line'', rsource = None,
                           rline = l\<rparr>) ls)),
      setFunctionBreakpoints = (\<lambda>fs. Inr (map (\<lambda>f. \<lparr>rid = Some 42, rverified = Some True,
                           rmessage = None, rsource = Some (Some ''/x.c''),
                           rline = Some 9\<rparr>) fs)),
      pause = (\<lambda>t. Inr ()),
      topOfStackSourceInfo = (\<lambda>t. Some None)\<rparr>"

definition failingSession :: Session where
  "failingSession =
     exampleSession\<lparr>setBreakpoints := (\<lambda>p ls. Inl (AdapterRequestFailed ''refused''))\<rparr>"

definition launchedDebugger :: Debugger where
  "launchedDebugger =
     (newDebugger {})\<lparr>sessionState := RUNNING, adapter := Some \<lparr>asyncStopThread = None\<rparr>\<rparr>"

definition debuggerWithBreakpoint :: Debugger where
  "debuggerWithBreakpoint =
     launchedDebugger\<lparr>breakpoints :=
       snd (addSourceBreakpoint ''/a.c'' 7 False (breakpoints launchedDebugger))\<rparr>"

definition debuggerWithOnce :: Debugger where
  "debuggerWithOnce =
     launchedDebugger
       \<lparr>breakpoints :=
          snd (addSourceBreakpoint ''/a.c'' 9 False
            (setBreakpointId 0 5
              (snd (addSourceBreakpoint ''/a.c'' 7 True
                 ((breakpoints launchedDebugger)\<lparr>onceState := True\<rparr>))))),
        threads := \<lparr>allThreads = [\<lparr>tid = 1, name = ''main'', stopped = False,
                                   selectedFrame = 0\<rparr>],
                    focusThreadId = None\<rparr>\<rparr>"

definition debuggerWithDisabled :: Debugger where
  "debuggerWithDisabled =
     debuggerWithBreakpoint\<lparr>breakpoints :=
       setState 0 DISABLED (breakpoints debuggerWithBreakpoint)\<rparr>"

definition verifyingSession :: Session where
  "verifyingSession =
     exampleSession\<lparr>setBreakpoints :=
       (\<lambda>p ls. Inr (map (\<lambda>l. \<lparr>rid = Some (case l of None \<Rightarrow> 0 | Some n \<Rightarrow> 100 + n),
                                rverified = Some True, rmessage = None, rsource = None,
                                rline = l\<rparr>) ls))\<rparr>"

definition debuggerWithThree :: Debugger where
  "debuggerWithThree =
     launchedDebugger\<lparr>breakpoints :=
       snd (addFunctionBreakpoint ''foo'' False
         (snd (addSourceBreakpoint ''/a.c'' 9 False
            (snd (addSourceBreakpoint ''/a.c'' 7 False (breakpoints launchedDebugger))))))\<rparr>"


section \<open>The effect of a reconciliation on the registry\<close>

lemma updateBreakpoint_snd:
  "snd (updateBreakpoint l r c) = mapBreakpoints (step (l, r)) c"
  by (auto simp: updateBreakpoint_def mapBreakpoints_def step_def updatedBy_def Let_def setBreakpointId_def
      setBreakpointVerified_def setPathAndFile_def updateByIndex_def
      split: option.splits)

lemma updatedBy_fields [simp]:
  "index (updatedBy l r b) = index b"
  "state (updatedBy l r b) = state b"
  "func (updatedBy l r b) = func b"
  "message (updatedBy l r b) = message b"
  by (simp_all add: updatedBy_def Let_def split: option.splits)

lemma step_fields [simp]:
  "index (step lr b) = index b"
  "state (step lr b) = state b"
  "func (step lr b) = func b"
  "message (step lr b) = message b"
  by (simp_all add: step_def)

lemma fold_step_fields [simp]:
  "index (fold step prs b) = index b"
  "state (fold step prs b) = state b"
  "func (fold step prs b) = func b"
  "message (fold step prs b) = message b"
  by (induction prs arbitrary: b) simp_all

lemma fold_step_other:
  "index b \<notin> index ` fst ` set prs \<Longrightarrow> fold step prs b = b"
  by (induction prs arbitrary: b) (auto simp: step_def)

lemma fold_step_at:
  assumes "distinct (map index ls)" "i < length ls" "i < length rs"
    and "index b = index (ls ! i)"
  shows "fold step (zip ls rs) b = updatedBy (ls ! i) (rs ! i) b"
  using assms
proof (induction ls arbitrary: rs i b)
  case Nil
  then show ?case by simp
next
  case (Cons l ls)
  then obtain r rs' where rs: "rs = r # rs'" by (cases rs) auto
  show ?case
  proof (cases i)
    case 0
    have "index (updatedBy l r b) \<notin> index ` fst ` set (zip ls rs')"
      using Cons.prems(1,4) 0 by (auto dest!: set_zip_leftD)
    then have "fold step (zip ls rs') (updatedBy l r b) = updatedBy l r b"
      by (rule fold_step_other)
    moreover have "step (l, r) b = updatedBy l r b"
      using 0 Cons.prems(4) by (simp add: step_def)
    ultimately show ?thesis using 0 rs by simp
  next
    case (Suc j)
    have "ls ! j \<in> set ls"
      using Cons.prems(2) Suc by simp
    then have "index b \<noteq> index l"
      using Cons.prems(1,4) Suc by force
    then have "step (l, r) b = b" by (simp add: step_def)
    moreover have "fold step (zip ls rs') b = updatedBy (ls ! j) (rs' ! j) b"
      using Cons.IH [of j rs' b] Cons.prems Suc rs by simp
    ultimately show ?thesis using Suc rs by simp
  qed
qed

lemma updateBreakpoints_snd:
  "snd (updateBreakpoints ls rs c) = mapBreakpoints (fold step (zip ls rs)) c"
proof (induction ls rs c rule: updateBreakpoints.induct)
  case (1 rs c)
  then show ?case by (simp add: mapBreakpoints_def)
next
  case (2 l ls c)
  then show ?case by (simp add: mapBreakpoints_def)
next
  case (3 l ls r rs c)
  obtain r' c' where u: "updateBreakpoint l r c = (r', c')" by (cases "updateBreakpoint l r c")
  then have c': "c' = mapBreakpoints (step (l, r)) c"
    using updateBreakpoint_snd [of l r c] by simp
  have "snd (updateBreakpoints ls rs c') = mapBreakpoints (fold step (zip ls rs)) c'"
    using 3 u by simp
  then show ?case using u c'
    by (cases "updateBreakpoints ls rs c'") (auto simp: mapBreakpoints_def split: sum.splits)
qed

lemma updateBreakpoints_ok:
  "length ls \<le> length rs \<Longrightarrow> \<exists>rs'. fst (updateBreakpoints ls rs c) = Inr rs' \<and> length rs' = length ls"
proof (induction ls rs c rule: updateBreakpoints.induct)
  case (3 l ls r rs c)
  obtain r' c' where u: "updateBreakpoint l r c = (r', c')" by (cases "updateBreakpoint l r c")
  then obtain rs' where "fst (updateBreakpoints ls rs c') = Inr rs'" "length rs' = length ls"
    using 3 by auto
  then show ?case using u
    by (cases "updateBreakpoints ls rs c'") (auto split: sum.splits)
qed simp_all

lemma updateBreakpoints_short:
  "length rs < length ls \<Longrightarrow> fst (updateBreakpoints ls rs c) = Inl TypeError"
proof (induction ls rs c rule: updateBreakpoints.induct)
  case (3 l ls r rs c)
  obtain r' c' where u: "updateBreakpoint l r c = (r', c')" by (cases "updateBreakpoint l r c")
  then have "fst (updateBreakpoints ls rs c') = Inl TypeError"
    using 3 by auto
  then show ?case using u
    by (cases "updateBreakpoints ls rs c'") (auto split: sum.splits)
qed simp_all

lemma mapBreakpoints_id [simp]:
  "mapBreakpoints (fold step []) c = c"
  "mapBreakpoints id c = c"
  "mapBreakpoints (\<lambda>b. b) c = c"
  by (simp_all add: mapBreakpoints_def)

lemma mapBreakpoints_comp:
  "mapBreakpoints g (mapBreakpoints f c) = mapBreakpoints (g \<circ> f) c"
  by (simp add: mapBreakpoints_def)

lemma mapBreakpoints_fold_append:
  "mapBreakpoints (fold step ys) (mapBreakpoints (fold step xs) c)
     = mapBreakpoints (fold step (xs @ ys)) c"
  by (simp add: mapBreakpoints_def)

lemma find_map_index:
  assumes "\<And>b. index (f b) = index b"
  shows "find (\<lambda>b. index b = k) (map f xs) = map_option f (find (\<lambda>b. index b = k) xs)"
  by (induction xs) (simp_all add: assms)

lemma find_index_distinct:
  "distinct (map index xs) \<Longrightarrow> b \<in> set xs \<Longrightarrow> find (\<lambda>x. index x = index b) xs = Some b"
  by (induction xs) force+

lemma getBreakpointByIndex_mapBreakpoints:
  assumes "distinct (map index (allBreakpoints c))" "b \<in> set (allBreakpoints c)"
  shows "getBreakpointByIndex (index b) (mapBreakpoints (fold step prs) c)
           = Inr (fold step prs b)"
  using assms
  by (simp add: getBreakpointByIndex_def mapBreakpoints_def find_map_index find_index_distinct)

lemma index_eq_same:
  "distinct (map index xs) \<Longrightarrow> a \<in> set xs \<Longrightarrow> b \<in> set xs \<Longrightarrow> index a = index b \<Longrightarrow> a = b"
  by (meson distinct_map inj_onD)

lemma updateBreakpoints_pair:
  "updateBreakpoints ls rs c = (fst (updateBreakpoints ls rs c), mapBreakpoints (fold step (zip ls rs)) c)"
  using updateBreakpoints_snd [of ls rs c] by (cases "updateBreakpoints ls rs c") simp

lemma ensureDebugSession_frame [simp]:
  "ensureDebugSession ds a (d\<lparr>breakpoints := c\<rparr>) = ensureDebugSession ds a d"
  "ensureDebugSession ds a (d\<lparr>trace := t\<rparr>) = ensureDebugSession ds a d"
  "ensureDebugSession ds a (d\<lparr>stoppedAtBreakpoint := x\<rparr>) = ensureDebugSession ds a d"
  by (simp_all add: ensureDebugSession_def split: option.splits)

lemma setSourceBreakpointsForPath_snd:
  "snd (setSourceBreakpointsForPath session p ioi d) =
     d\<lparr>breakpoints :=
         mapBreakpoints
           (fold step (sourcePairs session (p, getAllEnabledBreakpointsForSource p (breakpoints d))))
           (breakpoints d),
       trace := trace d @ [sourceRequest (p, getAllEnabledBreakpointsForSource p (breakpoints d))]\<rparr>"
proof (cases "setBreakpoints session p
                (map line (getAllEnabledBreakpointsForSource p (breakpoints d)))")
  case (Inl e)
  then show ?thesis
    by (simp add: setSourceBreakpointsForPath_def sourcePairs_def sourceRequest_def emit_def)
next
  case (Inr rs)
  then show ?thesis
    using updateBreakpoints_snd [of "getAllEnabledBreakpointsForSource p (breakpoints d)" rs "breakpoints d"]
    by (cases "updateBreakpoints (getAllEnabledBreakpointsForSource p (breakpoints d)) rs (breakpoints d)")
       (auto simp: setSourceBreakpointsForPath_def sourcePairs_def sourceRequest_def emit_def Let_def
             split: sum.splits)
qed

lemma setFunctionBreakpointsOfInterest_snd:
  "snd (setFunctionBreakpointsOfInterest session i d) =
     d\<lparr>breakpoints :=
         mapBreakpoints
           (fold step
              (case setFunctionBreakpoints session
                      (map func (getAllEnabledFunctionBreakpoints (breakpoints d))) of
                 Inl e \<Rightarrow> []
               | Inr rs \<Rightarrow> zip (getAllEnabledFunctionBreakpoints (breakpoints d)) rs))
           (breakpoints d),
       trace := trace d @
         [SetFunctionBreakpointsRequest
            (map func (getAllEnabledFunctionBreakpoints (breakpoints d)))]\<rparr>"
proof (cases "setFunctionBreakpoints session
                (map func (getAllEnabledFunctionBreakpoints (breakpoints d)))")
  case (Inl e)
  then show ?thesis
    by (simp add: setFunctionBreakpointsOfInterest_def emit_def)
next
  case (Inr rs)
  then show ?thesis
    using updateBreakpoints_snd [of "getAllEnabledFunctionBreakpoints (breakpoints d)" rs "breakpoints d"]
    by (cases "updateBreakpoints (getAllEnabledFunctionBreakpoints (breakpoints d)) rs (breakpoints d)")
       (auto simp: setFunctionBreakpointsOfInterest_def emit_def Let_def split: sum.splits)
qed

lemma resetSourceBreakpointSet_snd:
  "snd (resetSourceBreakpointSet session g acc) =
     (snd acc)\<lparr>breakpoints :=
         mapBreakpoints (fold step (sourcePairs session g)) (breakpoints (snd acc)),
       trace := trace (snd acc) @ [sourceRequest g]\<rparr>"
proof -
  obtain p ls where g: "g = (p, ls)" by (cases g)
  obtain res d where acc: "acc = (res, d)" by (cases acc)
  show ?thesis
  proof (cases "setBreakpoints session p (map line ls)")
    case (Inl e)
    then show ?thesis using g acc
      by (simp add: resetSourceBreakpointSet_def sourcePairs_def sourceRequest_def emit_def)
  next
    case (Inr rs)
    then show ?thesis
      using g acc updateBreakpoints_snd [of ls rs "breakpoints d"]
      by (cases "updateBreakpoints ls rs (breakpoints d)")
         (auto simp: resetSourceBreakpointSet_def sourcePairs_def sourceRequest_def emit_def Let_def
               split: sum.splits)
  qed
qed

lemma fold_resetSourceBreakpointSet_snd:
  "snd (fold (resetSourceBreakpointSet session) gs acc) =
     (snd acc)\<lparr>breakpoints :=
         mapBreakpoints (fold step (concat (map (sourcePairs session) gs)))
           (breakpoints (snd acc)),
       trace := trace (snd acc) @ map sourceRequest gs\<rparr>"
proof (induction gs arbitrary: acc)
  case Nil
  then show ?case by simp
next
  case (Cons g gs)
  show ?case
    by (simp add: Cons.IH resetSourceBreakpointSet_snd mapBreakpoints_def comp_def)
qed

lemma resetAllFunctionBreakpoints_snd:
  assumes "ensureDebugSession ds False d = Inr session"
  shows "snd (resetAllFunctionBreakpoints ds d) =
     d\<lparr>breakpoints :=
         mapBreakpoints (fold step (functionPairs session (breakpoints d))) (breakpoints d),
       trace := trace d @ functionRequests session (breakpoints d)\<rparr>"
proof (cases "\<not> supportsFunctionBreakpoints session
              \<or> getAllEnabledFunctionBreakpoints (breakpoints d) = []")
  case True
  then show ?thesis using assms
    by (auto simp: resetAllFunctionBreakpoints_def functionPairs_def functionRequests_def)
next
  case False
  show ?thesis
  proof (cases "setFunctionBreakpoints session
                  (map func (getAllEnabledFunctionBreakpoints (breakpoints d)))")
    case (Inl e)
    then show ?thesis using assms False
      by (simp add: resetAllFunctionBreakpoints_def functionPairs_def functionRequests_def
          emit_def)
  next
    case (Inr rs)
    then show ?thesis
      using assms False
        updateBreakpoints_snd [of "getAllEnabledFunctionBreakpoints (breakpoints d)" rs "breakpoints d"]
      by (cases "updateBreakpoints (getAllEnabledFunctionBreakpoints (breakpoints d)) rs (breakpoints d)")
         (auto simp: resetAllFunctionBreakpoints_def functionPairs_def functionRequests_def
               emit_def Let_def split: sum.splits)
  qed
qed

lemma resetAllFunctionBreakpoints_fail:
  "ensureDebugSession ds False d = Inl e \<Longrightarrow> resetAllFunctionBreakpoints ds d = (Inl e, d)"
  by (simp add: resetAllFunctionBreakpoints_def)

lemma resetAllBreakpoints_fail:
  "ensureDebugSession ds False d = Inl e \<Longrightarrow> resetAllBreakpoints ds d = (Inl e, d)"
  by (simp add: resetAllBreakpoints_def)

lemma resetAllBreakpoints_snd:
  assumes "ensureDebugSession ds False d = Inr session"
  shows "snd (resetAllBreakpoints ds d) =
     d\<lparr>breakpoints := mapBreakpoints (fold step (allPairs session (breakpoints d))) (breakpoints d),
       trace := trace d @ allRequests session (breakpoints d)\<rparr>"
proof -
  let ?gs = "getAllEnabledBreakpointsByPath (breakpoints d)"
  let ?acc = "fold (resetSourceBreakpointSet session) ?gs (Inr (), d)"
  have d1: "snd ?acc =
      d\<lparr>breakpoints :=
          mapBreakpoints (fold step (concat (map (sourcePairs session) ?gs))) (breakpoints d),
        trace := trace d @ map sourceRequest ?gs\<rparr>"
    using fold_resetSourceBreakpointSet_snd [of session ?gs "(Inr (), d)"] by simp
  have e1: "ensureDebugSession ds False (snd ?acc) = Inr session"
    using assms by (simp add: d1)
  have "snd (resetAllBreakpoints ds d) = snd (resetAllFunctionBreakpoints ds (snd ?acc))"
    using assms by (simp add: resetAllBreakpoints_def split: prod.splits)
  also have "\<dots> = (snd ?acc)\<lparr>breakpoints :=
         mapBreakpoints (fold step (functionPairs session (breakpoints (snd ?acc))))
           (breakpoints (snd ?acc)),
       trace := trace (snd ?acc) @ functionRequests session (breakpoints (snd ?acc))\<rparr>"
    by (rule resetAllFunctionBreakpoints_snd [OF e1])
  finally show ?thesis
    by (simp add: d1 allPairs_def allRequests_def mapBreakpoints_def comp_def)
qed

lemma updatedBy_carried:
  "bp_id (updatedBy l r b) = (case rid r of Some v \<Rightarrow> Some v | None \<Rightarrow> bp_id b)"
  "verified (updatedBy l r b) =
     (case rid r of
        None \<Rightarrow> True
      | Some v \<Rightarrow> (case rverified r of Some x \<Rightarrow> x | None \<Rightarrow> verified b))"
  by (simp_all add: updatedBy_def Let_def split: option.splits)

lemma wellFormed_distinct: "wellFormed c \<Longrightarrow> distinct (map index (allBreakpoints c))"
  by (simp add: wellFormed_def)

lemma carriesResponse_between:
  assumes d: "distinct (map index (allBreakpoints c))"
    and ls: "ls = filter P (allBreakpoints c)"
    and i: "i < length ls" "i < length rs"
    and A: "index (ls ! i) \<notin> index ` fst ` set A"
    and B: "index (ls ! i) \<notin> index ` fst ` set B"
  shows "carriesResponse (ls ! i) (rs ! i)
           (mapBreakpoints (fold step (A @ zip ls rs @ B)) c)"
proof -
  let ?b = "ls ! i"
  have mem: "?b \<in> set (allBreakpoints c)"
    using ls i(1) nth_mem [of i ls] by auto
  have dls: "distinct (map index ls)"
    using d ls by (simp add: distinct_map_filter)
  have a: "fold step A ?b = ?b"
    using A by (rule fold_step_other)
  have m: "fold step (zip ls rs) ?b = updatedBy ?b (rs ! i) ?b"
    using dls i by (rule fold_step_at) simp
  have "index (updatedBy ?b (rs ! i) ?b) \<notin> index ` fst ` set B"
    using B by simp
  then have b: "fold step B (updatedBy ?b (rs ! i) ?b) = updatedBy ?b (rs ! i) ?b"
    by (rule fold_step_other)
  have "fold step (A @ zip ls rs @ B) ?b = updatedBy ?b (rs ! i) ?b"
    by (simp add: a m b)
  moreover have "getBreakpointByIndex (index ?b)
                   (mapBreakpoints (fold step (A @ zip ls rs @ B)) c)
                 = Inr (fold step (A @ zip ls rs @ B) ?b)"
    using d mem by (rule getBreakpointByIndex_mapBreakpoints)
  ultimately show ?thesis
    by (simp add: carriesResponse_def updatedBy_carried)
qed

lemma setSourceBreakpointsForPath_carries:
  assumes "wellFormed (breakpoints d)"
    and "setBreakpoints session p
           (map line (getAllEnabledBreakpointsForSource p (breakpoints d))) = Inr rs"
    and "length rs = length (getAllEnabledBreakpointsForSource p (breakpoints d))"
    and "i < length rs"
  shows "carriesResponse (getAllEnabledBreakpointsForSource p (breakpoints d) ! i) (rs ! i)
           (breakpoints (snd (setSourceBreakpointsForPath session p ioi d)))"
proof -
  let ?ls = "getAllEnabledBreakpointsForSource p (breakpoints d)"
  have "carriesResponse (?ls ! i) (rs ! i)
          (mapBreakpoints (fold step ([] @ zip ?ls rs @ [])) (breakpoints d))"
    using assms
    by (intro carriesResponse_between [where P = "\<lambda>b. func b = None \<and> path b = Some p \<and> isEnabled b"])
       (simp_all add: wellFormed_distinct getAllEnabledBreakpointsForSource_def)
  then show ?thesis
    using assms(2) by (simp add: setSourceBreakpointsForPath_snd sourcePairs_def)
qed

lemma setFunctionBreakpointsOfInterest_carries:
  assumes "wellFormed (breakpoints d)"
    and "setFunctionBreakpoints session
           (map func (getAllEnabledFunctionBreakpoints (breakpoints d))) = Inr rs"
    and "length rs = length (getAllEnabledFunctionBreakpoints (breakpoints d))"
    and "i < length rs"
  shows "carriesResponse (getAllEnabledFunctionBreakpoints (breakpoints d) ! i) (rs ! i)
           (breakpoints (snd (setFunctionBreakpointsOfInterest session k d)))"
proof -
  let ?ls = "getAllEnabledFunctionBreakpoints (breakpoints d)"
  have "carriesResponse (?ls ! i) (rs ! i)
          (mapBreakpoints (fold step ([] @ zip ?ls rs @ [])) (breakpoints d))"
    using assms
    by (intro carriesResponse_between [where P = "\<lambda>b. func b \<noteq> None \<and> isEnabled b"])
       (simp_all add: wellFormed_distinct getAllEnabledFunctionBreakpoints_def)
  then show ?thesis
    using assms(2) by (simp add: setFunctionBreakpointsOfInterest_snd)
qed

lemma sourcePairs_fst:
  assumes "lr \<in> set (sourcePairs session (p, getAllEnabledBreakpointsForSource p c))"
  shows "fst lr \<in> set (allBreakpoints c) \<and> func (fst lr) = None \<and> path (fst lr) = Some p"
proof -
  obtain rs where "lr \<in> set (zip (getAllEnabledBreakpointsForSource p c) rs)"
    using assms by (cases "setBreakpoints session p (map line (getAllEnabledBreakpointsForSource p c))")
      (simp_all add: sourcePairs_def)
  then have "fst lr \<in> set (getAllEnabledBreakpointsForSource p c)"
    by (metis prod.collapse set_zip_leftD)
  then show ?thesis
    by (simp add: getAllEnabledBreakpointsForSource_def)
qed

lemma groups_fst:
  assumes "lr \<in> set (concat (map (sourcePairs session) (map (\<lambda>p. (p, getAllEnabledBreakpointsForSource p c)) ps)))"
  shows "fst lr \<in> set (allBreakpoints c) \<and> func (fst lr) = None \<and> path (fst lr) \<in> Some ` set ps"
  using assms sourcePairs_fst by fastforce

lemma functionPairs_fst:
  assumes "lr \<in> set (functionPairs session c)"
  shows "fst lr \<in> set (allBreakpoints c) \<and> func (fst lr) \<noteq> None"
proof -
  obtain rs where "lr \<in> set (zip (getAllEnabledFunctionBreakpoints c) rs)"
    using assms
    by (cases "setFunctionBreakpoints session (map func (getAllEnabledFunctionBreakpoints c))")
       (simp_all add: functionPairs_def split: if_splits)
  then have "fst lr \<in> set (getAllEnabledFunctionBreakpoints c)"
    by (metis prod.collapse set_zip_leftD)
  then show ?thesis
    by (simp add: getAllEnabledFunctionBreakpoints_def)
qed

lemma other_index:
  assumes "distinct (map index xs)" "b \<in> set xs" "\<And>lr. lr \<in> set prs \<Longrightarrow> fst lr \<in> set xs \<and> fst lr \<noteq> b"
  shows "index b \<notin> index ` fst ` set prs"
proof
  assume "index b \<in> index ` fst ` set prs"
  then obtain lr where lr: "lr \<in> set prs" "index (fst lr) = index b" by auto
  then have "fst lr \<in> set xs" "fst lr \<noteq> b" using assms(3) by auto
  then show False using assms(1,2) lr(2) index_eq_same by blast
qed

lemma functionBreakpoints_after_sources:
  assumes d: "distinct (map index (allBreakpoints c))"
    and S: "\<And>lr. lr \<in> set S \<Longrightarrow> fst lr \<in> set (allBreakpoints c) \<and> func (fst lr) = None"
  shows "getAllEnabledFunctionBreakpoints (mapBreakpoints (fold step S) c)
           = getAllEnabledFunctionBreakpoints c"
proof -
  let ?P = "\<lambda>b. func b \<noteq> None \<and> isEnabled b"
  have P: "?P (fold step S b) = ?P b" for b
    by (simp add: isEnabled_def)
  have fixed: "fold step S b = b" if "b \<in> set (allBreakpoints c)" "?P b" for b
  proof -
    have "index b \<notin> index ` fst ` set S"
      using d that(1)
    proof (rule other_index)
      fix lr assume "lr \<in> set S"
      then have "fst lr \<in> set (allBreakpoints c)" "func (fst lr) = None"
        using S [of lr] by simp_all
      then show "fst lr \<in> set (allBreakpoints c) \<and> fst lr \<noteq> b"
        using that(2) by auto
    qed
    then show ?thesis by (rule fold_step_other)
  qed
  have "filter ?P (map (fold step S) (allBreakpoints c))
          = map (fold step S) (filter ?P (allBreakpoints c))"
    by (simp add: filter_map comp_def isEnabled_def)
  also have "\<dots> = filter ?P (allBreakpoints c)"
    by (rule map_idI) (simp add: fixed)
  finally show ?thesis
    by (simp add: getAllEnabledFunctionBreakpoints_def mapBreakpoints_def)
qed

lemma allPairs_wellFormed:
  assumes "wellFormed c"
  shows "allPairs session c =
           concat (map (sourcePairs session) (getAllEnabledBreakpointsByPath c))
           @ functionPairs session c"
proof -
  let ?S = "concat (map (sourcePairs session) (getAllEnabledBreakpointsByPath c))"
  have eq: "getAllEnabledFunctionBreakpoints (mapBreakpoints (fold step ?S) c)
          = getAllEnabledFunctionBreakpoints c"
  proof (rule functionBreakpoints_after_sources)
    show "distinct (map index (allBreakpoints c))"
      using assms by (rule wellFormed_distinct)
  next
    fix lr assume "lr \<in> set ?S"
    then show "fst lr \<in> set (allBreakpoints c) \<and> func (fst lr) = None"
      using groups_fst [of lr session c "enabledPaths c"]
      by (simp add: getAllEnabledBreakpointsByPath_def)
  qed
  have "functionPairs session (mapBreakpoints (fold step ?S) c) = functionPairs session c"
    unfolding functionPairs_def eq by (rule refl)
  then show ?thesis by (simp add: allPairs_def)
qed

lemma resetAllBreakpoints_source_carries:
  assumes wf: "wellFormed (breakpoints d)"
    and ens: "ensureDebugSession ds False d = Inr session"
    and g: "(p, ls) \<in> set (getAllEnabledBreakpointsByPath (breakpoints d))"
    and resp: "setBreakpoints session p (map line ls) = Inr rs"
    and len: "length rs = length ls" "i < length ls"
  shows "carriesResponse (ls ! i) (rs ! i) (breakpoints (snd (resetAllBreakpoints ds d)))"
proof -
  let ?c = "breakpoints d"
  let ?G = "\<lambda>q. (q, getAllEnabledBreakpointsForSource q ?c)"
  let ?P = "\<lambda>b. func b = None \<and> path b = Some p \<and> isEnabled b"
  have dist: "distinct (map index (allBreakpoints ?c))"
    using wf by (rule wellFormed_distinct)
  have p: "p \<in> set (enabledPaths ?c)" and ls: "ls = filter ?P (allBreakpoints ?c)"
    using g by (auto simp: getAllEnabledBreakpointsByPath_def getAllEnabledBreakpointsForSource_def)
  have dp: "distinct (enabledPaths ?c)"
    by (simp add: enabledPaths_def)
  obtain ps1 ps2 where ps: "enabledPaths ?c = ps1 @ p # ps2"
    using p by (meson split_list)
  have notin: "p \<notin> set ps1" "p \<notin> set ps2"
    using dp ps by auto
  let ?A = "concat (map (sourcePairs session) (map ?G ps1))"
  let ?B = "concat (map (sourcePairs session) (map ?G ps2)) @ functionPairs session ?c"
  have pairs: "allPairs session ?c = ?A @ zip ls rs @ ?B"
    using resp ls
    by (simp add: allPairs_wellFormed [OF wf] getAllEnabledBreakpointsByPath_def ps
        sourcePairs_def getAllEnabledBreakpointsForSource_def)
  have b: "ls ! i \<in> set (allBreakpoints ?c)" "func (ls ! i) = None" "path (ls ! i) = Some p"
    using ls len(2) nth_mem [of i ls] by auto
  have A: "index (ls ! i) \<notin> index ` fst ` set ?A"
    using dist b(1)
  proof (rule other_index)
    fix lr assume "lr \<in> set ?A"
    then have "fst lr \<in> set (allBreakpoints ?c) \<and> func (fst lr) = None
                 \<and> path (fst lr) \<in> Some ` set ps1"
      by (rule groups_fst)
    then show "fst lr \<in> set (allBreakpoints ?c) \<and> fst lr \<noteq> ls ! i"
      using b(3) notin(1) by auto
  qed
  have B: "index (ls ! i) \<notin> index ` fst ` set ?B"
    using dist b(1)
  proof (rule other_index)
    fix lr assume "lr \<in> set ?B"
    then consider "lr \<in> set (concat (map (sourcePairs session) (map ?G ps2)))"
      | "lr \<in> set (functionPairs session ?c)" by auto
    then show "fst lr \<in> set (allBreakpoints ?c) \<and> fst lr \<noteq> ls ! i"
    proof cases
      case 1
      then have "fst lr \<in> set (allBreakpoints ?c) \<and> func (fst lr) = None
                   \<and> path (fst lr) \<in> Some ` set ps2"
        by (rule groups_fst)
      then show ?thesis using b(3) notin(2) by auto
    next
      case 2
      then have "fst lr \<in> set (allBreakpoints ?c) \<and> func (fst lr) \<noteq> None"
        by (rule functionPairs_fst)
      then show ?thesis using b(2) by auto
    qed
  qed
  have "carriesResponse (ls ! i) (rs ! i)
          (mapBreakpoints (fold step (?A @ zip ls rs @ ?B)) ?c)"
    using dist ls len(2) _ A B
    by (rule carriesResponse_between) (simp add: len)
  then show ?thesis
    by (simp add: resetAllBreakpoints_snd [OF ens] pairs)
qed

lemma resetAllBreakpoints_function_carries:
  assumes wf: "wellFormed (breakpoints d)"
    and ens: "ensureDebugSession ds False d = Inr session"
    and sup: "supportsFunctionBreakpoints session"
    and resp: "setFunctionBreakpoints session
                 (map func (getAllEnabledFunctionBreakpoints (breakpoints d))) = Inr rs"
    and len: "length rs = length (getAllEnabledFunctionBreakpoints (breakpoints d))"
             "i < length (getAllEnabledFunctionBreakpoints (breakpoints d))"
  shows "carriesResponse (getAllEnabledFunctionBreakpoints (breakpoints d) ! i) (rs ! i)
           (breakpoints (snd (resetAllBreakpoints ds d)))"
proof -
  let ?c = "breakpoints d"
  let ?ls = "getAllEnabledFunctionBreakpoints ?c"
  let ?P = "\<lambda>b. func b \<noteq> None \<and> isEnabled b"
  let ?A = "concat (map (sourcePairs session) (getAllEnabledBreakpointsByPath ?c))"
  have dist: "distinct (map index (allBreakpoints ?c))"
    using wf by (rule wellFormed_distinct)
  have ls: "?ls = filter ?P (allBreakpoints ?c)"
    by (simp add: getAllEnabledFunctionBreakpoints_def)
  have ne: "?ls \<noteq> []" using len(2) by auto
  have pairs: "allPairs session ?c = ?A @ zip ?ls rs @ []"
    using resp sup ne by (simp add: allPairs_wellFormed [OF wf] functionPairs_def)
  have b: "?ls ! i \<in> set (allBreakpoints ?c)" "func (?ls ! i) \<noteq> None"
    using len(2) nth_mem [of i ?ls] by (auto simp: getAllEnabledFunctionBreakpoints_def)
  have A: "index (?ls ! i) \<notin> index ` fst ` set ?A"
    using dist b(1)
  proof (rule other_index)
    fix lr assume "lr \<in> set ?A"
    then have "fst lr \<in> set (allBreakpoints ?c) \<and> func (fst lr) = None"
      using groups_fst [of lr session ?c "enabledPaths ?c"]
      by (simp add: getAllEnabledBreakpointsByPath_def)
    then show "fst lr \<in> set (allBreakpoints ?c) \<and> fst lr \<noteq> ?ls ! i"
      using b(2) by auto
  qed
  have "carriesResponse (?ls ! i) (rs ! i)
          (mapBreakpoints (fold step (?A @ zip ?ls rs @ [])) ?c)"
    using dist ls len(2) _ A
    by (rule carriesResponse_between) (simp_all add: len)
  then show ?thesis
    by (simp add: resetAllBreakpoints_snd [OF ens] pairs)
qed

section \<open>Frame lemmas\<close>

lemma getBreakpointByIndex_mem:
  "getBreakpointByIndex i c = Inr b \<Longrightarrow> b \<in> set (allBreakpoints c) \<and> index b = i"
  by (auto simp: getBreakpointByIndex_def find_Some_iff split: option.splits)

lemma setState_restore:
  assumes "distinct (map index (allBreakpoints c))" "getBreakpointByIndex i c = Inr b"
  shows "setState i (state b) (setState i st c) = c"
proof -
  have b: "b \<in> set (allBreakpoints c)" "index b = i"
    using assms(2) getBreakpointByIndex_mem by auto
  have "map ((\<lambda>x. if index x = i then x\<lparr>state := state b\<rparr> else x)
               \<circ> (\<lambda>x. if index x = i then x\<lparr>state := st\<rparr> else x)) (allBreakpoints c)
          = allBreakpoints c"
  proof (rule map_idI)
    fix x assume x: "x \<in> set (allBreakpoints c)"
    show "((\<lambda>x. if index x = i then x\<lparr>state := state b\<rparr> else x)
               \<circ> (\<lambda>x. if index x = i then x\<lparr>state := st\<rparr> else x)) x = x"
    proof (cases "index x = i")
      case True
      then have "x = b" using assms(1) x b index_eq_same by blast
      then show ?thesis using b(2) by simp
    next
      case False
      then show ?thesis by simp
    qed
  qed
  then show ?thesis
    by (simp add: setState_def updateByIndex_def)
qed

lemma setSourceBreakpointsForPath_fails:
  assumes "\<And>ls. setBreakpoints session p ls = Inl e"
  shows "setSourceBreakpointsForPath session p ioi d =
           (Inl e, emit (SetBreakpointsRequest p
                      (map line (getAllEnabledBreakpointsForSource p (breakpoints d)))) d)"
  by (simp add: setSourceBreakpointsForPath_def assms)

lemma resetAllBreakpoints_shape:
  "\<exists>prs reqs. snd (resetAllBreakpoints ds d) =
       d\<lparr>breakpoints := mapBreakpoints (fold step prs) (breakpoints d),
         trace := trace d @ reqs\<rparr>
     \<and> list_all isRequest reqs"
proof (cases "ensureDebugSession ds False d")
  case (Inl e)
  then have "snd (resetAllBreakpoints ds d) =
       d\<lparr>breakpoints := mapBreakpoints (fold step []) (breakpoints d), trace := trace d @ []\<rparr>"
    by (simp add: resetAllBreakpoints_fail)
  moreover have "list_all isRequest []" by simp
  ultimately show ?thesis by blast
next
  case (Inr session)
  have "list_all isRequest (allRequests session (breakpoints d))"
    by (simp add: allRequests_def functionRequests_def sourceRequest_def isRequest_def
        list_all_iff)
  then show ?thesis
    using resetAllBreakpoints_snd [OF Inr] by blast
qed


lemma markStopped_frame:
  "breakpoints (snd (markStopped ev d)) = breakpoints d"
  "\<exists>rest. trace (snd (markStopped ev d)) = trace d @ rest"
  by (auto simp: markStopped_def emit_def Let_def split: option.splits)

lemma firstStopped_frame:
  "breakpoints (snd (firstStopped ds ev d)) = breakpoints d"
  "\<exists>rest. trace (snd (firstStopped ds ev d)) = trace d @ rest"
  by (auto simp: firstStopped_def emit_def Let_def setFocusThread_def split: option.splits)

lemma afterOneShot_frame:
  "breakpoints (snd (afterOneShot ds ev d)) = breakpoints d"
  "\<exists>rest. trace (snd (afterOneShot ds ev d)) = trace d @ rest"
proof -
  let ?d1 = "if allThreadsRunning (threads d) then
               (case description ev of
                  Some s \<Rightarrow> emit (OutputLine (''Stopped: '' @ s)) d
                | None \<Rightarrow> d)
             else d"
  have d1: "breakpoints ?d1 = breakpoints d" "\<exists>rest. trace ?d1 = trace d @ rest"
    by (auto simp: emit_def split: option.splits)
  obtain r d2 where m: "markStopped ev ?d1 = (r, d2)" by (cases "markStopped ev ?d1")
  have d2: "breakpoints d2 = breakpoints d" "\<exists>rest. trace d2 = trace d @ rest"
    using markStopped_frame [of ev ?d1] m d1 by auto
  have res: "snd (afterOneShot ds ev d) = d2
             \<or> snd (afterOneShot ds ev d) = snd (firstStopped ds ev d2)"
    using m by (auto simp: afterOneShot_def Let_def split: sum.splits)
  show "breakpoints (snd (afterOneShot ds ev d)) = breakpoints d"
    using res d2(1) firstStopped_frame(1) [of ds ev d2] by auto
  show "\<exists>rest. trace (snd (afterOneShot ds ev d)) = trace d @ rest"
    using res d2(2) firstStopped_frame(2) [of ds ev d2] by auto
qed

lemma getBreakpointById_mem:
  "getBreakpointById i c = Inr b \<Longrightarrow> b \<in> set (allBreakpoints c)"
  by (auto simp: getBreakpointById_def find_Some_iff split: option.splits)

lemma getBreakpointByIndex_after_disable:
  assumes "b \<in> set (allBreakpoints c)"
  shows "\<exists>b'. getBreakpointByIndex (index b)
                 (mapBreakpoints (fold step prs) (setState (index b) DISABLED c)) = Inr b'
             \<and> state b' = DISABLED"
proof -
  let ?f = "\<lambda>x. fold step prs (if index x = index b then x\<lparr>state := DISABLED\<rparr> else x)"
  have ix: "index (?f x) = index x" for x by simp
  obtain x where x: "find (\<lambda>x. index x = index b) (allBreakpoints c) = Some x"
    using assms by (cases "find (\<lambda>x. index x = index b) (allBreakpoints c)")
      (auto simp: find_None_iff)
  then have "index x = index b" by (auto simp: find_Some_iff)
  then have st: "state (?f x) = DISABLED" by simp
  have "find (\<lambda>x. index x = index b) (map ?f (allBreakpoints c)) = Some (?f x)"
    using find_map_index [of ?f "index b" "allBreakpoints c"] ix x by simp
  then have "getBreakpointByIndex (index b)
               (mapBreakpoints (fold step prs) (setState (index b) DISABLED c)) = Inr (?f x)"
    by (simp add: getBreakpointByIndex_def mapBreakpoints_def setState_def updateByIndex_def
        comp_def)
  then show ?thesis using st by blast
qed

lemma setSourceBreakpoint_trace:
  assumes "once \<longrightarrow> onceState (breakpoints d)" "sessionState d \<noteq> CONFIGURING"
  shows "trace (snd (setSourceBreakpoint (Some session) p l once d)) =
           trace d @ [SetBreakpointsRequest p
             (map line (getAllEnabledBreakpointsForSource p
                (snd (addSourceBreakpoint p l once (breakpoints d)))))]"
proof -
  let ?d1 = "d\<lparr>breakpoints := snd (addSourceBreakpoint p l once (breakpoints d))\<rparr>"
  have "snd (setSourceBreakpoint (Some session) p l once d)
          = snd (setSourceBreakpointsForPath session p (Some (nextIndex (breakpoints d))) ?d1)"
    using assms
    by (cases "setSourceBreakpointsForPath session p (Some (nextIndex (breakpoints d))) ?d1")
       (auto simp: setSourceBreakpoint_def ensureDebugSession_def addSourceBreakpoint_def
             Let_def split: sum.splits option.splits)
  then show ?thesis
    by (simp add: setSourceBreakpointsForPath_snd sourceRequest_def)
qed

lemma setFunctionBreakpoint_trace:
  assumes "once \<longrightarrow> onceState (breakpoints d)" "sessionState d \<noteq> CONFIGURING"
    and "supportsFunctionBreakpoints session"
  shows "trace (snd (setFunctionBreakpoint (Some session) f once d)) =
           trace d @ [SetFunctionBreakpointsRequest
             (map func (getAllEnabledFunctionBreakpoints
                (snd (addFunctionBreakpoint f once (breakpoints d)))))]"
proof -
  let ?d1 = "d\<lparr>breakpoints := snd (addFunctionBreakpoint f once (breakpoints d))\<rparr>"
  have "snd (setFunctionBreakpoint (Some session) f once d)
          = snd (setFunctionBreakpointsOfInterest session (nextIndex (breakpoints d)) ?d1)"
    using assms
    by (cases "setFunctionBreakpointsOfInterest session (nextIndex (breakpoints d)) ?d1")
       (auto simp: setFunctionBreakpoint_def ensureDebugSession_def addFunctionBreakpoint_def
             Let_def split: sum.splits option.splits)
  then show ?thesis
    by (simp add: setFunctionBreakpointsOfInterest_snd)
qed

section \<open>What a reconciliation returns\<close>

lemma updateBreakpoint_fst: "fst (updateBreakpoint l r c) = withMessage r"
  by (simp add: updateBreakpoint_def withMessage_def Let_def)

lemma updateBreakpoints_fst:
  "length ls \<le> length rs \<Longrightarrow>
     fst (updateBreakpoints ls rs c) = Inr (map withMessage (take (length ls) rs))"
proof (induction ls rs c rule: updateBreakpoints.induct)
  case (3 l ls r rs c)
  obtain r' c' where u: "updateBreakpoint l r c = (r', c')" by (cases "updateBreakpoint l r c")
  then have r': "r' = withMessage r"
    using updateBreakpoint_fst [of l r c] by simp
  have "fst (updateBreakpoints ls rs c') = Inr (map withMessage (take (length ls) rs))"
    using 3 u by simp
  then show ?case using u r'
    by (cases "updateBreakpoints ls rs c'") (auto split: sum.splits)
qed simp_all

lemma ofInterest_at:
  assumes "distinct (map index ls)" "i < length ls" "length rs = length ls"
  shows "ofInterest (Some (index (ls ! i))) ls rs = Some (rs ! i)"
  using assms
proof (induction ls arbitrary: rs i)
  case Nil
  then show ?case by simp
next
  case (Cons l ls)
  then obtain r rs' where rs: "rs = r # rs'" by (cases rs) auto
  show ?case
  proof (cases i)
    case 0
    then show ?thesis using rs by (simp add: ofInterest_def)
  next
    case (Suc j)
    have "ls ! j \<in> set ls" using Cons.prems(2) Suc by simp
    then have ne: "index l \<noteq> index (ls ! j)" using Cons.prems(1) by force
    have "ofInterest (Some (index (ls ! j))) ls rs' = Some (rs' ! j)"
      using Cons.IH [of j rs'] Cons.prems Suc rs by simp
    then show ?thesis using Suc rs ne by (simp add: ofInterest_def)
  qed
qed

lemma setSourceBreakpointsForPath_returns:
  assumes "wellFormed (breakpoints d)"
    and "setBreakpoints session p
           (map line (getAllEnabledBreakpointsForSource p (breakpoints d))) = Inr rs"
    and "length rs = length (getAllEnabledBreakpointsForSource p (breakpoints d))"
    and "i < length rs"
  shows "fst (setSourceBreakpointsForPath session p
                (Some (index (getAllEnabledBreakpointsForSource p (breakpoints d) ! i))) d)
           = Inr (Some (withMessage (rs ! i)))"
proof -
  let ?ls = "getAllEnabledBreakpointsForSource p (breakpoints d)"
  have dls: "distinct (map index ?ls)"
    using assms(1)
    by (simp add: getAllEnabledBreakpointsForSource_def distinct_map_filter wellFormed_distinct)
  have f: "fst (updateBreakpoints ?ls rs (breakpoints d)) = Inr (map withMessage rs)"
    using updateBreakpoints_fst [of ?ls rs "breakpoints d"] assms(3) by simp
  have o: "ofInterest (Some (index (?ls ! i))) ?ls (map withMessage rs)
             = Some (map withMessage rs ! i)"
    using dls assms(3,4) by (intro ofInterest_at) simp_all
  show ?thesis
    using assms(2,4) f o
    by (cases "updateBreakpoints ?ls rs (breakpoints d)")
       (simp add: setSourceBreakpointsForPath_def Let_def emit_def)
qed

lemma setFunctionBreakpointsOfInterest_returns:
  assumes "wellFormed (breakpoints d)"
    and "setFunctionBreakpoints session
           (map func (getAllEnabledFunctionBreakpoints (breakpoints d))) = Inr rs"
    and "length rs = length (getAllEnabledFunctionBreakpoints (breakpoints d))"
    and "i < length rs"
  shows "fst (setFunctionBreakpointsOfInterest session
                (index (getAllEnabledFunctionBreakpoints (breakpoints d) ! i)) d)
           = Inr (Some (withMessage (rs ! i)))"
proof -
  let ?ls = "getAllEnabledFunctionBreakpoints (breakpoints d)"
  have dls: "distinct (map index ?ls)"
    using assms(1)
    by (simp add: getAllEnabledFunctionBreakpoints_def distinct_map_filter wellFormed_distinct)
  have f: "fst (updateBreakpoints ?ls rs (breakpoints d)) = Inr (map withMessage rs)"
    using updateBreakpoints_fst [of ?ls rs "breakpoints d"] assms(3) by simp
  have o: "ofInterest (Some (index (?ls ! i))) ?ls (map withMessage rs)
             = Some (map withMessage rs ! i)"
    using dls assms(3,4) by (intro ofInterest_at) simp_all
  show ?thesis
    using assms(2,4) f o
    by (cases "updateBreakpoints ?ls rs (breakpoints d)")
       (simp add: setFunctionBreakpointsOfInterest_def Let_def emit_def)
qed

section \<open>The requests of enabling every breakpoint\<close>








section \<open>The registry invariant is kept\<close>

lemma wellFormed_newDebugger: "wellFormed (breakpoints (newDebugger mute))"
  by (simp add: wellFormed_def newDebugger_def)

lemma wellFormed_addSourceBreakpoint:
  "wellFormed c \<Longrightarrow> wellFormed (snd (addSourceBreakpoint p l once c))"
  by (auto simp: wellFormed_def addSourceBreakpoint_def list_all_iff)

lemma wellFormed_addFunctionBreakpoint:
  "wellFormed c \<Longrightarrow> wellFormed (snd (addFunctionBreakpoint f once c))"
  by (auto simp: wellFormed_def addFunctionBreakpoint_def list_all_iff)

lemma wellFormed_updateByIndex:
  assumes "wellFormed c" "\<And>b. index (f b) = index b"
  shows "wellFormed (updateByIndex i f c)"
proof -
  have "index \<circ> (\<lambda>b. if index b = i then f b else b) = index"
    by (rule ext) (simp add: assms(2))
  then show ?thesis
    using assms by (auto simp: wellFormed_def updateByIndex_def list_all_iff)
qed

lemma wellFormed_setState: "wellFormed c \<Longrightarrow> wellFormed (setState i st c)"
  by (simp add: setState_def wellFormed_updateByIndex)

lemma wellFormed_mapBreakpoints:
  "wellFormed c \<Longrightarrow> wellFormed (mapBreakpoints (fold step prs) c)"
  by (simp add: wellFormed_def mapBreakpoints_def comp_def list_all_iff)

lemma wellFormed_resetAllBreakpoints:
  assumes "wellFormed (breakpoints d)"
  shows "wellFormed (breakpoints (snd (resetAllBreakpoints ds d)))"
proof -
  obtain prs reqs where "snd (resetAllBreakpoints ds d) =
       d\<lparr>breakpoints := mapBreakpoints (fold step prs) (breakpoints d),
         trace := trace d @ reqs\<rparr>"
    using resetAllBreakpoints_shape by blast
  then show ?thesis
    using assms by (simp add: wellFormed_mapBreakpoints)
qed

section \<open>Breakpoint reconciliation\<close>

text \<open>
  C1 (as amended). In a reconciliation by \<open>_setSourceBreakpointsForPath\<close>,
  \<open>_setFunctionBreakpoints\<close> or \<open>_resetAllBreakpoints\<close> whose response has the length
  of its request, the registry entry of the i-th requested breakpoint afterwards has the
  \<open>id\<close> of the i-th response element when the element has one, and keeps its own
  otherwise; its \<open>verified\<close> is true when the element has no \<open>id\<close>, is the element's
  when the element has an \<open>id\<close> and a \<open>verified\<close>, and is kept otherwise; its
  \<open>message\<close> is kept. The adapter's message is not stored: the first two functions
  return, for the breakpoint of interest, the i-th response element, its message
  replaced by a stock one when the element is not verified and gives none.
\<close>

theorem reconciliation_carries_response:
  assumes "wellFormed (breakpoints d)"
  shows "(setBreakpoints session p
            (map line (getAllEnabledBreakpointsForSource p (breakpoints d))) = Inr rs
          \<and> length rs = length (getAllEnabledBreakpointsForSource p (breakpoints d))
          \<and> i < length rs \<longrightarrow>
            carriesResponse (getAllEnabledBreakpointsForSource p (breakpoints d) ! i) (rs ! i)
              (breakpoints (snd (setSourceBreakpointsForPath session p ioi d)))
            \<and> fst (setSourceBreakpointsForPath session p
                      (Some (index (getAllEnabledBreakpointsForSource p (breakpoints d) ! i))) d)
                = Inr (Some (withMessage (rs ! i))))
       \<and> (setFunctionBreakpoints session
            (map func (getAllEnabledFunctionBreakpoints (breakpoints d))) = Inr rs
          \<and> length rs = length (getAllEnabledFunctionBreakpoints (breakpoints d))
          \<and> i < length rs \<longrightarrow>
            carriesResponse (getAllEnabledFunctionBreakpoints (breakpoints d) ! i) (rs ! i)
              (breakpoints (snd (setFunctionBreakpointsOfInterest session k d)))
            \<and> fst (setFunctionBreakpointsOfInterest session
                      (index (getAllEnabledFunctionBreakpoints (breakpoints d) ! i)) d)
                = Inr (Some (withMessage (rs ! i))))
       \<and> (ensureDebugSession ds False d = Inr session
          \<and> (p, ls) \<in> set (getAllEnabledBreakpointsByPath (breakpoints d))
          \<and> setBreakpoints session p (map line ls) = Inr rs
          \<and> length rs = length ls \<and> i < length rs \<longrightarrow>
            carriesResponse (ls ! i) (rs ! i) (breakpoints (snd (resetAllBreakpoints ds d))))
       \<and> (ensureDebugSession ds False d = Inr session
          \<and> supportsFunctionBreakpoints session
          \<and> setFunctionBreakpoints session
               (map func (getAllEnabledFunctionBreakpoints (breakpoints d))) = Inr rs
          \<and> length rs = length (getAllEnabledFunctionBreakpoints (breakpoints d))
          \<and> i < length rs \<longrightarrow>
            carriesResponse (getAllEnabledFunctionBreakpoints (breakpoints d) ! i) (rs ! i)
              (breakpoints (snd (resetAllBreakpoints ds d))))"
  using setSourceBreakpointsForPath_carries [OF assms, of session p rs i ioi]
    setSourceBreakpointsForPath_returns [OF assms, of session p rs i]
    setFunctionBreakpointsOfInterest_carries [OF assms, of session rs i k]
    setFunctionBreakpointsOfInterest_returns [OF assms, of session rs i]
    resetAllBreakpoints_source_carries [OF assms, of ds session p ls rs i]
    resetAllBreakpoints_function_carries [OF assms, of ds session rs i]
  by simp

theorem reconciliation_carries_response_witness:
  "carriesResponse
     \<lparr>index = 1, bp_id = None, verified = False, state = ENABLED,
       path = Some ''/a.c'', line = Some 9, func = None, message = None\<rparr>
     \<lparr>rid = Some 109, rverified = Some True, rmessage = None, rsource = None,
       rline = Some 9\<rparr>
     (breakpoints (snd (setSourceBreakpointsForPath verifyingSession ''/a.c'' None
                          debuggerWithThree)))
   \<and> fst (setSourceBreakpointsForPath verifyingSession ''/a.c'' (Some 1) debuggerWithThree)
     = Inr (Some \<lparr>rid = Some 109, rverified = Some True, rmessage = None, rsource = None,
                    rline = Some 9\<rparr>)
   \<and> carriesResponse
     \<lparr>index = 2, bp_id = None, verified = False, state = ENABLED,
       path = None, line = None, func = Some ''foo'', message = None\<rparr>
     \<lparr>rid = Some 42, rverified = Some True, rmessage = None,
       rsource = Some (Some ''/x.c''), rline = Some 9\<rparr>
     (breakpoints (snd (setFunctionBreakpointsOfInterest verifyingSession 2 debuggerWithThree)))
   \<and> fst (setFunctionBreakpointsOfInterest verifyingSession 2 debuggerWithThree)
     = Inr (Some \<lparr>rid = Some 42, rverified = Some True, rmessage = None,
                    rsource = Some (Some ''/x.c''), rline = Some 9\<rparr>)
   \<and> carriesResponse
     \<lparr>index = 1, bp_id = None, verified = False, state = ENABLED,
       path = Some ''/a.c'', line = Some 9, func = None, message = None\<rparr>
     \<lparr>rid = Some 109, rverified = Some True, rmessage = None, rsource = None,
       rline = Some 9\<rparr>
     (breakpoints (snd (resetAllBreakpoints (Some verifyingSession) debuggerWithThree)))
   \<and> carriesResponse
     \<lparr>index = 2, bp_id = None, verified = False, state = ENABLED,
       path = None, line = None, func = Some ''foo'', message = None\<rparr>
     \<lparr>rid = Some 42, rverified = Some True, rmessage = None,
       rsource = Some (Some ''/x.c''), rline = Some 9\<rparr>
     (breakpoints (snd (resetAllBreakpoints (Some verifyingSession) debuggerWithThree)))
   \<and> map bp_id (allBreakpoints (breakpoints
         (snd (resetAllBreakpoints (Some verifyingSession) debuggerWithThree))))
     = [Some 107, Some 109, Some 42]
   \<and> map verified (allBreakpoints (breakpoints
         (snd (resetAllBreakpoints (Some verifyingSession) debuggerWithThree))))
     = [True, True, True]
   \<and> map message (allBreakpoints (breakpoints
         (snd (resetAllBreakpoints (Some verifyingSession) debuggerWithThree))))
     = [None, None, None]
   \<and> carriesResponse
     \<lparr>index = 0, bp_id = None, verified = False, state = ENABLED,
       path = Some ''/a.c'', line = Some 7, func = None, message = None\<rparr>
     \<lparr>rid = None, rverified = Some False, rmessage = Some ''no code at this line'',
       rsource = None, rline = Some 7\<rparr>
     (breakpoints (snd (setSourceBreakpointsForPath exampleSession ''/a.c'' None
                          debuggerWithBreakpoint)))
   \<and> fst (setSourceBreakpointsForPath exampleSession ''/a.c'' (Some 0) debuggerWithBreakpoint)
     = Inr (Some \<lparr>rid = None, rverified = Some False,
                    rmessage = Some ''no code at this line'', rsource = None,
                    rline = Some 7\<rparr>)"
proof -
  let ?b0 = "\<lparr>index = 0, bp_id = None, verified = False, state = ENABLED,
              path = Some ''/a.c'', line = Some 7, func = None, message = None\<rparr>"
  let ?b1 = "\<lparr>index = 1, bp_id = None, verified = False, state = ENABLED,
              path = Some ''/a.c'', line = Some 9, func = None, message = None\<rparr>"
  let ?bf = "\<lparr>index = 2, bp_id = None, verified = False, state = ENABLED,
              path = None, line = None, func = Some ''foo'', message = None\<rparr>"
  let ?r107 = "\<lparr>rid = Some 107, rverified = Some True, rmessage = None, rsource = None,
                rline = Some 7\<rparr>"
  let ?r109 = "\<lparr>rid = Some 109, rverified = Some True, rmessage = None, rsource = None,
                rline = Some 9\<rparr>"
  let ?r42 = "\<lparr>rid = Some 42, rverified = Some True, rmessage = None,
               rsource = Some (Some ''/x.c''), rline = Some 9\<rparr>"
  let ?r0 = "\<lparr>rid = None, rverified = Some False, rmessage = Some ''no code at this line'',
              rsource = None, rline = Some 7\<rparr>"
  have bs3: "allBreakpoints (breakpoints debuggerWithThree) = [?b0, ?b1, ?bf]"
    by (simp add: debuggerWithThree_def launchedDebugger_def newDebugger_def
        addSourceBreakpoint_def addFunctionBreakpoint_def)
  have wf3: "wellFormed (breakpoints debuggerWithThree)"
    by (simp add: wellFormed_def bs3)
      (simp add: debuggerWithThree_def launchedDebugger_def newDebugger_def
        addSourceBreakpoint_def addFunctionBreakpoint_def)
  have ls3: "getAllEnabledBreakpointsForSource ''/a.c'' (breakpoints debuggerWithThree)
               = [?b0, ?b1]"
    by (simp add: getAllEnabledBreakpointsForSource_def bs3 isEnabled_def)
  have fs3: "getAllEnabledFunctionBreakpoints (breakpoints debuggerWithThree) = [?bf]"
    by (simp add: getAllEnabledFunctionBreakpoints_def bs3 isEnabled_def)
  have gs3: "getAllEnabledBreakpointsByPath (breakpoints debuggerWithThree)
               = [(''/a.c'', [?b0, ?b1])]"
    by (simp add: getAllEnabledBreakpointsByPath_def enabledPaths_def ls3 bs3 isEnabled_def)
  have rs3: "setBreakpoints verifyingSession ''/a.c'' [Some 7, Some 9] = Inr [?r107, ?r109]"
    by (simp add: verifyingSession_def exampleSession_def)
  have rf3: "setFunctionBreakpoints verifyingSession [Some ''foo''] = Inr [?r42]"
    by (simp add: verifyingSession_def exampleSession_def)
  have en3: "ensureDebugSession (Some verifyingSession) False debuggerWithThree
               = Inr verifyingSession"
    by (simp add: debuggerWithThree_def launchedDebugger_def newDebugger_def
        ensureDebugSession_def)
  have sup: "supportsFunctionBreakpoints verifyingSession"
    by (simp add: verifyingSession_def exampleSession_def)
  have bs1: "allBreakpoints (breakpoints debuggerWithBreakpoint) = [?b0]"
    by (simp add: debuggerWithBreakpoint_def launchedDebugger_def newDebugger_def
        addSourceBreakpoint_def)
  have wf1: "wellFormed (breakpoints debuggerWithBreakpoint)"
    by (simp add: debuggerWithBreakpoint_def launchedDebugger_def newDebugger_def
        addSourceBreakpoint_def wellFormed_def)
  have ls1: "getAllEnabledBreakpointsForSource ''/a.c'' (breakpoints debuggerWithBreakpoint)
               = [?b0]"
    by (simp add: getAllEnabledBreakpointsForSource_def bs1 isEnabled_def)
  have rs1: "setBreakpoints exampleSession ''/a.c'' [Some 7] = Inr [?r0]"
    by (simp add: exampleSession_def)
  have ev: "map bp_id (allBreakpoints (breakpoints
              (snd (resetAllBreakpoints (Some verifyingSession) debuggerWithThree))))
            = [Some 107, Some 109, Some 42]"
           "map verified (allBreakpoints (breakpoints
              (snd (resetAllBreakpoints (Some verifyingSession) debuggerWithThree))))
            = [True, True, True]"
           "map message (allBreakpoints (breakpoints
              (snd (resetAllBreakpoints (Some verifyingSession) debuggerWithThree))))
            = [None, None, None]"
    by code_simp+
  show ?thesis
    using reconciliation_carries_response
            [OF wf3, where session = verifyingSession and p = "''/a.c''"
               and rs = "[?r107, ?r109]" and i = 1 and ioi = None and k = 2
               and ds = "Some verifyingSession" and ls = "[?b0, ?b1]"]
          reconciliation_carries_response
            [OF wf3, where session = verifyingSession and p = "''/a.c''"
               and rs = "[?r42]" and i = 0 and ioi = None and k = 2
               and ds = "Some verifyingSession" and ls = "[?b0, ?b1]"]
          reconciliation_carries_response
            [OF wf1, where session = exampleSession and p = "''/a.c''"
               and rs = "[?r0]" and i = 0 and ioi = None and k = 0
               and ds = "Some exampleSession" and ls = "[?b0]"]
    by (simp add: ls3 fs3 gs3 rs3 rf3 en3 sup ls1 rs1 ev withMessage_def)
qed

text \<open>
  C1 as stated fails: the adapter answers the request for the one breakpoint of
  \<open>/a.c\<close> with an element without \<open>id\<close>, not verified, with a message; afterwards
  the local breakpoint is verified and has no message.
\<close>

theorem reconciliation_message_counterexample:
  "setBreakpoints exampleSession ''/a.c''
      (map line (getAllEnabledBreakpointsForSource ''/a.c'' (breakpoints debuggerWithBreakpoint)))
     = Inr [\<lparr>rid = None, rverified = Some False, rmessage = Some ''no code at this line'',
              rsource = None, rline = Some 7\<rparr>]
   \<and> map verified (allBreakpoints (breakpoints
         (snd (setSourceBreakpointsForPath exampleSession ''/a.c'' None debuggerWithBreakpoint))))
     = [True]
   \<and> map message (allBreakpoints (breakpoints
         (snd (setSourceBreakpointsForPath exampleSession ''/a.c'' None debuggerWithBreakpoint))))
     = [None]"
  by (simp add: setSourceBreakpointsForPath_def getAllEnabledBreakpointsForSource_def
      debuggerWithBreakpoint_def launchedDebugger_def newDebugger_def addSourceBreakpoint_def
      exampleSession_def isEnabled_def emit_def updateBreakpoint_def setBreakpointVerified_def
      updateByIndex_def Let_def)

section \<open>Termination events\<close>

text \<open>
  C2. A \<open>terminated\<close> event received while the session is \<open>STOPPED\<close> is dropped
  by the guard of \<open>_onTerminatedDebugee\<close>: the state stays \<open>STOPPED\<close> and nothing is
  started, whereas the same event while \<open>RUNNING\<close>, and the \<open>adapter-exited\<close> and
  \<open>exited\<close> events while \<open>STOPPED\<close>, start the REPL and relaunch.
\<close>

theorem onTerminatedDebugee_while_stopped:
  "onTerminatedDebugee (Some exampleSession) (launchedDebugger\<lparr>sessionState := STOPPED\<rparr>)
     = (Inr (), launchedDebugger\<lparr>sessionState := STOPPED\<rparr>)
   \<and> sessionState (snd (onTerminatedDebugee (Some exampleSession) launchedDebugger))
     = INITIALIZING
   \<and> trace (snd (onTerminatedDebugee (Some exampleSession) launchedDebugger))
     = [OutputLine ''The target has exited.'', StartInput, DisconnectRequest]
   \<and> trace (snd (onAdapterExited (Some exampleSession)
                   (launchedDebugger\<lparr>sessionState := STOPPED\<rparr>)))
     = [StartInput, DisconnectRequest]
   \<and> trace (snd (onExitedDebugee (Some exampleSession) \<lparr>exitCode = 0\<rparr>
                   (launchedDebugger\<lparr>sessionState := STOPPED\<rparr>)))
     = [OutputLineExited 0, StartInput, DisconnectRequest]"
  by (simp add: onTerminatedDebugee_def onAdapterExited_def onExitedDebugee_def
      afterTerminated_def relaunch_def emit_def launchedDebugger_def newDebugger_def)

section \<open>Rollback of a failed toggle\<close>

text \<open>
  C3. When the \<open>setBreakpoints\<close> request of \<open>toggleBreakpoint\<close> or
  \<open>setBreakpointEnabled\<close> fails, the error is thrown again and the registry is what it
  was before the call.
\<close>

theorem failed_setBreakpoints_rolls_back:
  assumes "wellFormed (breakpoints d)"
    and "ensureDebugSession ds False d = Inr session"
    and "getBreakpointByIndex i (breakpoints d) = Inr b"
    and "path b = Some p"
    and "\<And>ls. setBreakpoints session p ls = Inl e"
  shows "fst (toggleBreakpoint ds i d) = Inl e
       \<and> breakpoints (snd (toggleBreakpoint ds i d)) = breakpoints d
       \<and> (state b = ENABLED \<longrightarrow> fst (setBreakpointEnabled ds i en d) = Inl e)
       \<and> breakpoints (snd (setBreakpointEnabled ds i en d)) = breakpoints d"
proof -
  have r: "setState i (state b) (setState i st (breakpoints d)) = breakpoints d" for st
    using assms(1,3) by (simp add: setState_restore wellFormed_distinct)
  have f: "setSourceBreakpointsForPath session p ioi d' =
             (Inl e, emit (SetBreakpointsRequest p
                        (map line (getAllEnabledBreakpointsForSource p (breakpoints d')))) d')"
    for ioi d'
    using assms(5) by (rule setSourceBreakpointsForPath_fails)
  have t: "fst (toggleBreakpoint ds i d) = Inl e
           \<and> breakpoints (snd (toggleBreakpoint ds i d)) = breakpoints d"
    using assms(2,3,4) by (simp add: toggleBreakpoint_def Let_def f emit_def r)
  have s: "(state b = ENABLED \<longrightarrow> fst (setBreakpointEnabled ds i en d) = Inl e)
           \<and> breakpoints (snd (setBreakpointEnabled ds i en d)) = breakpoints d"
  proof (cases "state b = ENABLED")
    case True
    then have "setState i ENABLED (setState i st (breakpoints d)) = breakpoints d" for st
      using r [of st] by simp
    then show ?thesis
      using assms(2,3,4) True by (simp add: setBreakpointEnabled_def Let_def f emit_def)
  next
    case False
    then show ?thesis
      using assms(2,3) by (simp add: setBreakpointEnabled_def)
  qed
  show ?thesis using t s by simp
qed

theorem failed_setBreakpoints_rolls_back_witness:
  "fst (toggleBreakpoint (Some failingSession) 0 debuggerWithBreakpoint)
     = Inl (AdapterRequestFailed ''refused'')
   \<and> breakpoints (snd (toggleBreakpoint (Some failingSession) 0 debuggerWithBreakpoint))
     = breakpoints debuggerWithBreakpoint
   \<and> fst (setBreakpointEnabled (Some failingSession) 0 False debuggerWithBreakpoint)
     = Inl (AdapterRequestFailed ''refused'')
   \<and> breakpoints (snd (setBreakpointEnabled (Some failingSession) 0 False debuggerWithBreakpoint))
     = breakpoints debuggerWithBreakpoint"
proof -
  let ?b = "\<lparr>index = 0, bp_id = None, verified = False, state = ENABLED,
             path = Some ''/a.c'', line = Some 7, func = None, message = None\<rparr>"
  have h1: "wellFormed (breakpoints debuggerWithBreakpoint)"
    by (simp add: debuggerWithBreakpoint_def launchedDebugger_def newDebugger_def
        addSourceBreakpoint_def wellFormed_def)
  have h2: "ensureDebugSession (Some failingSession) False debuggerWithBreakpoint
              = Inr failingSession"
    by (simp add: debuggerWithBreakpoint_def launchedDebugger_def newDebugger_def
        ensureDebugSession_def)
  have h3: "getBreakpointByIndex 0 (breakpoints debuggerWithBreakpoint) = Inr ?b"
    by (simp add: debuggerWithBreakpoint_def launchedDebugger_def newDebugger_def
        addSourceBreakpoint_def getBreakpointByIndex_def)
  have h4: "path ?b = Some ''/a.c''" by simp
  have h5: "setBreakpoints failingSession ''/a.c'' ls = Inl (AdapterRequestFailed ''refused'')"
    for ls
    by (simp add: failingSession_def)
  show ?thesis
    using failed_setBreakpoints_rolls_back [OF h1 h2 h3 h4 h5, of False] by simp
qed

section \<open>One-shot breakpoints\<close>

text \<open>
  C4. On a stop event carrying the adapter id of a breakpoint whose state is once,
  \<open>_onStopped\<close> disables the breakpoint and runs \<open>_resetAllBreakpoints\<close> on the
  result before anything else: the breakpoint is disabled afterwards, and the requests
  of the reset come first in what the handler does, before the REPL input is started.
\<close>

theorem onStopped_one_shot:
  assumes "breakpointId ev = Some bid"
    and "getBreakpointById bid (breakpoints d) = Inr bpt"
    and "state bpt = ONCE"
  shows "onStopped ds ev d =
           (case resetAllBreakpoints ds
                   (d\<lparr>stoppedAtBreakpoint := Some (index bpt),
                      breakpoints := setState (index bpt) DISABLED (breakpoints d)\<rparr>) of
              (Inl e, d2) \<Rightarrow> (Inl e, d2)
            | (Inr u, d2) \<Rightarrow> afterOneShot ds ev d2)
       \<and> (\<exists>b'. getBreakpointByIndex (index bpt) (breakpoints (snd (onStopped ds ev d))) = Inr b'
                \<and> state b' = DISABLED)
       \<and> (\<exists>reqs rest.
             trace (snd (resetAllBreakpoints ds
                      (d\<lparr>stoppedAtBreakpoint := Some (index bpt),
                         breakpoints := setState (index bpt) DISABLED (breakpoints d)\<rparr>)))
               = trace d @ reqs
             \<and> list_all isRequest reqs
             \<and> trace (snd (onStopped ds ev d)) = trace d @ reqs @ rest)"
proof -
  let ?d' = "d\<lparr>stoppedAtBreakpoint := Some (index bpt),
                breakpoints := setState (index bpt) DISABLED (breakpoints d)\<rparr>"
  have eq: "onStopped ds ev d =
           (case resetAllBreakpoints ds ?d' of
              (Inl e, d2) \<Rightarrow> (Inl e, d2)
            | (Inr u, d2) \<Rightarrow> afterOneShot ds ev d2)"
    using assms by (simp add: onStopped_def disableBreakpointIfOneShot_def Let_def)
  obtain r d2 where res: "resetAllBreakpoints ds ?d' = (r, d2)"
    by (cases "resetAllBreakpoints ds ?d'")
  obtain prs reqs where shape:
    "d2 = ?d'\<lparr>breakpoints := mapBreakpoints (fold step prs) (breakpoints ?d'),
              trace := trace ?d' @ reqs\<rparr>"
    "list_all isRequest reqs"
    using resetAllBreakpoints_shape [of ds ?d'] res by auto
  have fin: "snd (onStopped ds ev d) = d2 \<or> snd (onStopped ds ev d) = snd (afterOneShot ds ev d2)"
    using eq res by (cases r) simp_all
  have bps: "breakpoints (snd (onStopped ds ev d)) = breakpoints d2"
    using fin afterOneShot_frame(1) [of ds ev d2] by auto
  have mem: "bpt \<in> set (allBreakpoints (breakpoints d))"
    using assms(2) by (rule getBreakpointById_mem)
  have two: "\<exists>b'. getBreakpointByIndex (index bpt) (breakpoints (snd (onStopped ds ev d))) = Inr b'
                \<and> state b' = DISABLED"
    using getBreakpointByIndex_after_disable [OF mem, of prs] by (simp add: bps shape(1))
  have tr2: "trace d2 = trace d @ reqs" by (simp add: shape(1))
  obtain rest where "trace (snd (onStopped ds ev d)) = trace d2 @ rest"
    using fin afterOneShot_frame(2) [of ds ev d2] by auto
  then have three: "trace (snd (resetAllBreakpoints ds ?d')) = trace d @ reqs
             \<and> list_all isRequest reqs
             \<and> trace (snd (onStopped ds ev d)) = trace d @ reqs @ rest"
    using res tr2 shape(2) by simp
  show ?thesis using eq two three by blast
qed

theorem onStopped_one_shot_witness:
  "trace (snd (onStopped (Some exampleSession)
                 \<lparr>description = Some ''breakpoint'', threadId = Some 1,
                   allThreadsStopped = None, breakpointId = Some 5\<rparr> debuggerWithOnce))
     = [SetBreakpointsRequest ''/a.c'' [Some 9], OutputLine ''Stopped: breakpoint'', StartInput]
   \<and> map state (allBreakpoints (breakpoints (snd (onStopped (Some exampleSession)
                 \<lparr>description = Some ''breakpoint'', threadId = Some 1,
                   allThreadsStopped = None, breakpointId = Some 5\<rparr> debuggerWithOnce))))
     = [DISABLED, ENABLED]"
proof -
  let ?ev = "\<lparr>description = Some ''breakpoint'', threadId = Some 1,
               allThreadsStopped = None, breakpointId = Some 5\<rparr>"
  let ?b = "\<lparr>index = 0, bp_id = Some 5, verified = False, state = ONCE,
             path = Some ''/a.c'', line = Some 7, func = None, message = None\<rparr>"
  have h1: "breakpointId ?ev = Some 5" by simp
  have h2: "getBreakpointById 5 (breakpoints debuggerWithOnce) = Inr ?b"
    by code_simp
  have h3: "state ?b = ONCE" by simp
  have r: "resetAllBreakpoints (Some exampleSession)
             (debuggerWithOnce\<lparr>stoppedAtBreakpoint := Some 0,
                breakpoints := setState 0 DISABLED (breakpoints debuggerWithOnce)\<rparr>)
           = (Inr (), debuggerWithOnce
                \<lparr>stoppedAtBreakpoint := Some 0,
                 breakpoints :=
                   \<lparr>allBreakpoints =
                      [?b\<lparr>state := DISABLED\<rparr>,
                       \<lparr>index = 1, bp_id = None, verified = True, state = ENABLED,
                         path = Some ''/a.c'', line = Some 9, func = None, message = None\<rparr>],
                    nextIndex = 2, onceState = True\<rparr>,
                 trace := [SetBreakpointsRequest ''/a.c'' [Some 9]]\<rparr>)"
    by code_simp
  have eq: "onStopped (Some exampleSession) ?ev debuggerWithOnce =
              afterOneShot (Some exampleSession) ?ev
                (debuggerWithOnce
                   \<lparr>stoppedAtBreakpoint := Some 0,
                    breakpoints :=
                      \<lparr>allBreakpoints =
                         [?b\<lparr>state := DISABLED\<rparr>,
                          \<lparr>index = 1, bp_id = None, verified = True, state = ENABLED,
                            path = Some ''/a.c'', line = Some 9, func = None, message = None\<rparr>],
                       nextIndex = 2, onceState = True\<rparr>,
                    trace := [SetBreakpointsRequest ''/a.c'' [Some 9]]\<rparr>)"
    using onStopped_one_shot [OF h1 h2 h3, of "Some exampleSession", THEN conjunct1]
    by (simp add: r)
  show ?thesis
    unfolding eq by code_simp
qed

section \<open>Breakpoints set before the program starts\<close>

text \<open>
  C5. For a call that passes its checks (a session exists, one-shot is supported when
  asked for, function breakpoints are supported for \<open>setFunctionBreakpoint\<close>): while
  \<open>CONFIGURING\<close>, \<open>setSourceBreakpoint\<close> adds the breakpoint, sends nothing and
  returns the new index with the pending message; in every other state it sends a
  \<open>setBreakpoints\<close> request for the path, holding the new line. The same holds for
  \<open>setFunctionBreakpoint\<close> and \<open>setFunctionBreakpoints\<close>.
\<close>

theorem breakpoints_pending_while_configuring:
  assumes "once \<longrightarrow> onceState (breakpoints d)"
  shows "(sessionState d = CONFIGURING \<longrightarrow>
            setSourceBreakpoint (Some session) p l once d =
              (Inr (nextIndex (breakpoints d), Some pendingMessage),
               d\<lparr>breakpoints := snd (addSourceBreakpoint p l once (breakpoints d))\<rparr>)
            \<and> trace (snd (setSourceBreakpoint (Some session) p l once d)) = trace d)
       \<and> (sessionState d \<noteq> CONFIGURING \<longrightarrow>
            trace (snd (setSourceBreakpoint (Some session) p l once d)) =
              trace d @ [SetBreakpointsRequest p
                (map line (getAllEnabledBreakpointsForSource p
                   (snd (addSourceBreakpoint p l once (breakpoints d)))))]
            \<and> Some l \<in> set (map line (getAllEnabledBreakpointsForSource p
                   (snd (addSourceBreakpoint p l once (breakpoints d))))))
       \<and> (supportsFunctionBreakpoints session \<and> sessionState d = CONFIGURING \<longrightarrow>
            setFunctionBreakpoint (Some session) f once d =
              (Inr (nextIndex (breakpoints d), Some pendingMessage),
               d\<lparr>breakpoints := snd (addFunctionBreakpoint f once (breakpoints d))\<rparr>)
            \<and> trace (snd (setFunctionBreakpoint (Some session) f once d)) = trace d)
       \<and> (supportsFunctionBreakpoints session \<and> sessionState d \<noteq> CONFIGURING \<longrightarrow>
            trace (snd (setFunctionBreakpoint (Some session) f once d)) =
              trace d @ [SetFunctionBreakpointsRequest
                (map func (getAllEnabledFunctionBreakpoints
                   (snd (addFunctionBreakpoint f once (breakpoints d)))))]
            \<and> Some f \<in> set (map func (getAllEnabledFunctionBreakpoints
                   (snd (addFunctionBreakpoint f once (breakpoints d))))))"
proof -
  have a: "sessionState d = CONFIGURING \<Longrightarrow>
            setSourceBreakpoint (Some session) p l once d =
              (Inr (nextIndex (breakpoints d), Some pendingMessage),
               d\<lparr>breakpoints := snd (addSourceBreakpoint p l once (breakpoints d))\<rparr>)"
    using assms
    by (auto simp: setSourceBreakpoint_def ensureDebugSession_def addSourceBreakpoint_def)
  have b: "Some l \<in> set (map line (getAllEnabledBreakpointsForSource p
                   (snd (addSourceBreakpoint p l once (breakpoints d)))))"
    by (simp add: getAllEnabledBreakpointsForSource_def addSourceBreakpoint_def isEnabled_def)
  have c: "supportsFunctionBreakpoints session \<Longrightarrow> sessionState d = CONFIGURING \<Longrightarrow>
            setFunctionBreakpoint (Some session) f once d =
              (Inr (nextIndex (breakpoints d), Some pendingMessage),
               d\<lparr>breakpoints := snd (addFunctionBreakpoint f once (breakpoints d))\<rparr>)"
    using assms
    by (auto simp: setFunctionBreakpoint_def ensureDebugSession_def addFunctionBreakpoint_def)
  have e: "Some f \<in> set (map func (getAllEnabledFunctionBreakpoints
                   (snd (addFunctionBreakpoint f once (breakpoints d)))))"
    by (simp add: getAllEnabledFunctionBreakpoints_def addFunctionBreakpoint_def isEnabled_def)
  show ?thesis
    using a b c e setSourceBreakpoint_trace [OF assms, of session p l]
      setFunctionBreakpoint_trace [OF assms, of session f]
    by simp
qed

theorem breakpoints_pending_while_configuring_witness:
  "setSourceBreakpoint (Some exampleSession) ''/a.c'' 9 False
       (debuggerWithBreakpoint\<lparr>sessionState := CONFIGURING\<rparr>)
     = (Inr (1, Some ''Breakpoint pending until program starts.''),
        debuggerWithBreakpoint
          \<lparr>sessionState := CONFIGURING,
           breakpoints := snd (addSourceBreakpoint ''/a.c'' 9 False
                                 (breakpoints debuggerWithBreakpoint))\<rparr>)
   \<and> trace (snd (setSourceBreakpoint (Some exampleSession) ''/a.c'' 9 False
                   (debuggerWithBreakpoint\<lparr>sessionState := CONFIGURING\<rparr>))) = []
   \<and> trace (snd (setSourceBreakpoint (Some exampleSession) ''/a.c'' 9 False
                   debuggerWithBreakpoint))
     = [SetBreakpointsRequest ''/a.c'' [Some 7, Some 9]]
   \<and> fst (setFunctionBreakpoint (Some exampleSession) ''foo'' False
              (debuggerWithBreakpoint\<lparr>sessionState := CONFIGURING\<rparr>))
     = Inr (1, Some ''Breakpoint pending until program starts.'')
   \<and> trace (snd (setFunctionBreakpoint (Some exampleSession) ''foo'' False
                   debuggerWithBreakpoint))
     = [SetFunctionBreakpointsRequest [Some ''foo'']]"
proof -
  have h: "False \<longrightarrow> onceState (breakpoints d)" for d :: Debugger by simp
  have c: "sessionState (debuggerWithBreakpoint\<lparr>sessionState := CONFIGURING\<rparr>) = CONFIGURING"
          "sessionState debuggerWithBreakpoint \<noteq> CONFIGURING"
          "supportsFunctionBreakpoints exampleSession"
          "trace debuggerWithBreakpoint = []"
          "nextIndex (breakpoints debuggerWithBreakpoint) = 1"
    by (simp_all add: debuggerWithBreakpoint_def launchedDebugger_def newDebugger_def
        exampleSession_def addSourceBreakpoint_def)
  have l1: "map line (getAllEnabledBreakpointsForSource ''/a.c''
              (snd (addSourceBreakpoint ''/a.c'' 9 False (breakpoints debuggerWithBreakpoint))))
            = [Some 7, Some 9]"
    by code_simp
  have l2: "map func (getAllEnabledFunctionBreakpoints
              (snd (addFunctionBreakpoint ''foo'' False (breakpoints debuggerWithBreakpoint))))
            = [Some ''foo'']"
    by code_simp
  show ?thesis
    using breakpoints_pending_while_configuring
            [OF h, of "debuggerWithBreakpoint\<lparr>sessionState := CONFIGURING\<rparr>"
               exampleSession "''/a.c''" 9 "''foo''"]
          breakpoints_pending_while_configuring
            [OF h, of debuggerWithBreakpoint exampleSession "''/a.c''" 9 "''foo''"]
    by (simp add: c l1 l2 pendingMessage_def)
qed

section \<open>Output events\<close>

text \<open>
  C6 (as amended). An output event is forwarded to the console exactly when it has a
  category and the category is not muted; an event without a category is dropped.
\<close>

theorem observeOutputEvent_forwarded:
  "observeOutputEvent ev d =
     (if \<exists>cat. category ev = Some cat \<and> cat \<notin> muteOutputCategories d
      then emit (Output (case outputText ev of None \<Rightarrow> [] | Some t \<Rightarrow> t)) d
      else d)"
  by (auto simp: observeOutputEvent_def onOutput_def split: option.splits)

theorem observeOutputEvent_forwarded_witness:
  "trace (observeOutputEvent \<lparr>category = Some ''stdout'', outputText = Some ''hello''\<rparr>
            (newDebugger {''telemetry''})) = [Output ''hello'']
   \<and> trace (observeOutputEvent \<lparr>category = Some ''telemetry'', outputText = Some ''hello''\<rparr>
            (newDebugger {''telemetry''})) = []"
  using observeOutputEvent_forwarded
          [of "\<lparr>category = Some ''stdout'', outputText = Some ''hello''\<rparr>"
              "newDebugger {''telemetry''}"]
        observeOutputEvent_forwarded
          [of "\<lparr>category = Some ''telemetry'', outputText = Some ''hello''\<rparr>"
              "newDebugger {''telemetry''}"]
  by (simp add: newDebugger_def emit_def)

text \<open>
  C6 as stated fails: with no category muted, an event without a category is not
  forwarded.
\<close>

theorem observeOutputEvent_no_category_counterexample:
  "muteOutputCategories (newDebugger {}) = {}
   \<and> category \<lparr>category = None, outputText = Some ''hello''\<rparr> = None
   \<and> trace (observeOutputEvent \<lparr>category = None, outputText = Some ''hello''\<rparr>
               (newDebugger {})) = []"
  by (simp add: observeOutputEvent_def newDebugger_def)

section \<open>Pausing after attach\<close>

text \<open>
  C7 (as amended). Once attached and configured, the engine pauses the adapter's
  \<open>asyncStopThread\<close> if there is one, else the first thread of the list; with neither
  it sends no pause request and stops the console input.
\<close>

theorem pauseAfterAttach_thread:
  assumes "configured d" "attached d" "adapter d = Some a"
  shows "(asyncStopThread a = Some t \<longrightarrow>
            trace (snd (pauseAfterAttach (Some session) d)) = trace d @ [PauseRequest t])
       \<and> (asyncStopThread a = None \<and> allThreads (threads d) = th # ths \<longrightarrow>
            trace (snd (pauseAfterAttach (Some session) d)) = trace d @ [PauseRequest (tid th)])
       \<and> (asyncStopThread a = None \<and> allThreads (threads d) = [] \<longrightarrow>
            pauseAfterAttach (Some session) d = (Inr (), emit StopInput d))"
  using assms
  by (auto simp: pauseAfterAttach_def ensureDebugSession_def emit_def split: sum.splits)

theorem pauseAfterAttach_thread_witness:
  "trace (snd (pauseAfterAttach (Some exampleSession)
                 (debuggerWithOnce\<lparr>attachMode := True, configured := True, attached := True,
                    adapter := Some \<lparr>asyncStopThread = Some 3\<rparr>\<rparr>)))
     = [PauseRequest 3]
   \<and> trace (snd (pauseAfterAttach (Some exampleSession)
                 (debuggerWithOnce\<lparr>attachMode := True, configured := True, attached := True\<rparr>)))
     = [PauseRequest 1]
   \<and> pauseAfterAttach (Some exampleSession)
        (launchedDebugger\<lparr>attachMode := True, configured := True, attached := True\<rparr>)
     = (Inr (), emit StopInput
                  (launchedDebugger\<lparr>attachMode := True, configured := True, attached := True\<rparr>))"
proof -
  let ?d3 = "debuggerWithOnce\<lparr>attachMode := True, configured := True, attached := True,
                    adapter := Some \<lparr>asyncStopThread = Some 3\<rparr>\<rparr>"
  let ?d1 = "debuggerWithOnce\<lparr>attachMode := True, configured := True, attached := True\<rparr>"
  let ?d0 = "launchedDebugger\<lparr>attachMode := True, configured := True, attached := True\<rparr>"
  let ?th = "\<lparr>tid = 1, name = ''main'', stopped = False, selectedFrame = 0\<rparr>"
  have a3: "configured ?d3" "attached ?d3" "adapter ?d3 = Some \<lparr>asyncStopThread = Some 3\<rparr>"
    by simp_all
  have a1: "configured ?d1" "attached ?d1" "adapter ?d1 = Some \<lparr>asyncStopThread = None\<rparr>"
    by (simp_all add: debuggerWithOnce_def launchedDebugger_def)
  have a0: "configured ?d0" "attached ?d0" "adapter ?d0 = Some \<lparr>asyncStopThread = None\<rparr>"
    by (simp_all add: launchedDebugger_def)
  have t: "trace debuggerWithOnce = []" "trace launchedDebugger = []"
          "allThreads (threads debuggerWithOnce) = [?th]"
          "allThreads (threads launchedDebugger) = []"
    by (simp_all add: debuggerWithOnce_def launchedDebugger_def newDebugger_def)
  show ?thesis
    using pauseAfterAttach_thread [OF a3, of 3 exampleSession ?th "[]"]
          pauseAfterAttach_thread [OF a1, of 3 exampleSession ?th "[]"]
          pauseAfterAttach_thread [OF a0, of 3 exampleSession ?th "[]"]
    by (simp add: t)
qed

text \<open>
  C7 as stated fails: with no thread to pause the only console call is \<open>stopInput\<close>,
  so the input is not active.
\<close>

theorem pauseAfterAttach_no_thread_counterexample:
  "trace (snd (pauseAfterAttach (Some exampleSession)
                 (launchedDebugger\<lparr>attachMode := True, configured := True, attached := True\<rparr>)))
     = [StopInput]
   \<and> StartInput \<notin> set (trace (snd (pauseAfterAttach (Some exampleSession)
                 (launchedDebugger\<lparr>attachMode := True, configured := True, attached := True\<rparr>))))"
  by (simp add: pauseAfterAttach_def ensureDebugSession_def emit_def launchedDebugger_def
      newDebugger_def exampleSession_def)

section \<open>Breakpoint state toggling\<close>

text \<open>
  C8 (as amended). Toggling twice returns an enabled or a disabled breakpoint to its
  original state; a once breakpoint collapses to disabled on the first toggle and is
  enabled after the second.
\<close>

theorem toggleState_twice:
  "toggleState (toggleState st) = (if st = ONCE then ENABLED else st)"
  by (cases st) simp_all

text \<open>
  C8 as stated fails for the initial state once.
\<close>

theorem toggleState_twice_once_counterexample:
  "toggleState (toggleState ONCE) \<noteq> ONCE"
  by simp

section \<open>Enabling breakpoints\<close>



text \<open>
  C10. \<open>setBreakpointEnabled\<close> on a breakpoint that is not enabled changes nothing
  and sends nothing, and returns normally when the session check passes.
\<close>

theorem setBreakpointEnabled_not_enabled:
  assumes "getBreakpointByIndex i (breakpoints d) = Inr b" "state b \<noteq> ENABLED"
  shows "snd (setBreakpointEnabled ds i en d) = d
       \<and> (\<forall>session. ensureDebugSession ds False d = Inr session \<longrightarrow>
            setBreakpointEnabled ds i en d = (Inr (), d))"
  using assms by (auto simp: setBreakpointEnabled_def split: sum.splits)

theorem setBreakpointEnabled_not_enabled_witness:
  "setBreakpointEnabled (Some exampleSession) 0 True debuggerWithDisabled
     = (Inr (), debuggerWithDisabled)
   \<and> map state (allBreakpoints (breakpoints debuggerWithDisabled)) = [DISABLED]"
proof -
  let ?b = "\<lparr>index = 0, bp_id = None, verified = False, state = DISABLED,
             path = Some ''/a.c'', line = Some 7, func = None, message = None\<rparr>"
  have h1: "getBreakpointByIndex 0 (breakpoints debuggerWithDisabled) = Inr ?b"
    by code_simp
  have h2: "state ?b \<noteq> ENABLED" by simp
  have e: "ensureDebugSession (Some exampleSession) False debuggerWithDisabled = Inr exampleSession"
    by (simp add: ensureDebugSession_def debuggerWithDisabled_def debuggerWithBreakpoint_def
        launchedDebugger_def newDebugger_def)
  have b: "map state (allBreakpoints (breakpoints debuggerWithDisabled)) = [DISABLED]"
    by code_simp
  show ?thesis
    using setBreakpointEnabled_not_enabled [OF h1 h2, of "Some exampleSession" True] e b
    by simp
qed

end
